theory Spec2Isabelle
  imports Complex_Main
begin

section \<open>Data model\<close>

text \<open>
  The repository holds the screenshot tool twice: \<^verbatim>\<open>src/index.ts\<close>, one long
  function \<^verbatim>\<open>captureScreenshots\<close>, and a second file that splits the same logic
  into the classes \<^verbatim>\<open>SelectorManager\<close>, \<^verbatim>\<open>AnimationHandler\<close> and
  \<^verbatim>\<open>ScreenshotCapture\<close>. Both are embedded here. Where the two files hold the same
  text (the in-page callbacks, \<^verbatim>\<open>generateFilename\<close>, the config reader) one
  definition stands for both; where they differ, the definition of \<^verbatim>\<open>index.ts\<close>
  carries the suffix \<open>_index\<close>.

  The browser, the DOM and the file system are not part of the repository. They are
  parameters: the records \<open>page\<close> and \<open>system\<close> hold, as functions, what each
  external call answers. The mutable part (the attributes the tool writes, the scroll
  position, the console, the files written) is the record \<open>state\<close>, passed through
  every operation. An exception is the \<open>Inl\<close> branch of a sum; the state travels
  beside it, since what was done before a throw stays done.

  Indices and millisecond counts are \<open>nat\<close>; strings are \<open>char list\<close>. The pixel
  measures the code computes with are IEEE doubles, modelled below.
\<close>

datatype DeviceType = Desktop | Mobile

datatype DeviceOption = Single DeviceType | Both

fun deviceName :: "DeviceType \<Rightarrow> string" where
  "deviceName Desktop = ''desktop''"
| "deviceName Mobile = ''mobile''"

record ViewportConfig =
  width :: nat
  height :: nat
  deviceScaleFactor :: nat
  isMobile :: bool

fun getConfig :: "DeviceType \<Rightarrow> ViewportConfig" where
  "getConfig Desktop = \<lparr>width = 1500, height = 1095, deviceScaleFactor = 1, isMobile = False\<rparr>"
| "getConfig Mobile = \<lparr>width = 430, height = 932, deviceScaleFactor = 2, isMobile = True\<rparr>"

record ScreenshotOptions =
  url :: string
  selectors :: "string list option"
  config :: "string option"
  wait :: nat
  animationTrigger :: bool
  outputDir :: string
  navigationTimeout :: nat
  parentSelector :: "string option"
  device :: DeviceOption

datatype error =
    ElementNotFound string
  | FailedToProcess string error
  | TypeError string
  | ConfigError string
  | BrowserError string

datatype log_entry =
    ProcessingDevice DeviceType
  | Navigating string nat
  | PageLoaded
  | FindingChildren string
  | FoundChildren nat
  | ProcessingSelector string
  | TriggeringAnimations string
  | WaitingMs nat
  | ScreenshotSaved string
  | ErrorProcessingSelector string error
  | ErrorReadingConfig error
  | ErrorCapturing error

type_synonym elem = nat

record rect =
  rectTop :: real
  rectHeight :: real

section \<open>JavaScript numbers\<close>

text \<open>
  A JavaScript number is an IEEE double: a finite value with a significand of 53 bits, an
  infinity, or NaN. The result of an arithmetic operation is the exact result rounded to
  the nearest double, ties to the even significand; a result of magnitude
  \<open>2 ^ 1024 - 2 ^ 970\<close> or more is an infinity. The sign of zero is left out: no
  comparison and no scroll command of the code tells the two zeros apart.

  \<open>ulpSearch\<close> finds the spacing of the doubles around a positive magnitude \<open>a\<close>: the
  power of two \<open>u\<close> with \<open>u * 2 ^ 52 \<le> a < u * 2 ^ 53\<close>, and never less than
  \<open>2 ^ -1074\<close>, the spacing of the subnormal numbers. Its first argument bounds the
  number of steps; 2200 are enough for every magnitude below the overflow threshold.
\<close>

datatype double = Finite real | PlusInfinity | MinusInfinity | NaN

fun ulpSearch :: "nat \<Rightarrow> real \<Rightarrow> real \<Rightarrow> real" where
  "ulpSearch 0 a u = u"
| "ulpSearch (Suc n) a u =
     (if a < u * 2 ^ 52 then (if u \<le> 1 / 2 ^ 1074 then u else ulpSearch n a (u / 2))
      else if u * 2 ^ 53 \<le> a then ulpSearch n a (u * 2)
      else u)"

definition roundHalfEven :: "real \<Rightarrow> int" where
  "roundHalfEven y =
     (let f = \<lfloor>y\<rfloor>; d = y - of_int f
      in if d < 1 / 2 then f else if 1 / 2 < d then f + 1 else if even f then f else f + 1)"

definition roundFinite :: "real \<Rightarrow> real" where
  "roundFinite x =
     (if x = 0 then 0
      else (let u = ulpSearch 2200 \<bar>x\<bar> (1 / 2 ^ 52) in of_int (roundHalfEven (x / u)) * u))"

text \<open>The double nearest to a real: also how a measure delivered by the page is read.\<close>

definition toDouble :: "real \<Rightarrow> double" where
  "toDouble x =
     (if 2 ^ 1024 - 2 ^ 970 \<le> x then PlusInfinity
      else if x \<le> - (2 ^ 1024 - 2 ^ 970) then MinusInfinity
      else Finite (roundFinite x))"

fun dneg :: "double \<Rightarrow> double" where
  "dneg (Finite a) = Finite (- a)"
| "dneg PlusInfinity = MinusInfinity"
| "dneg MinusInfinity = PlusInfinity"
| "dneg NaN = NaN"

fun dadd :: "double \<Rightarrow> double \<Rightarrow> double" where
  "dadd (Finite a) (Finite b) = toDouble (a + b)"
| "dadd NaN b = NaN"
| "dadd a NaN = NaN"
| "dadd PlusInfinity MinusInfinity = NaN"
| "dadd MinusInfinity PlusInfinity = NaN"
| "dadd PlusInfinity b = PlusInfinity"
| "dadd a PlusInfinity = PlusInfinity"
| "dadd MinusInfinity b = MinusInfinity"
| "dadd a MinusInfinity = MinusInfinity"

definition dsub :: "double \<Rightarrow> double \<Rightarrow> double" where
  "dsub a b = dadd a (dneg b)"

text \<open>Division by the literal 2, the only division the code performs.\<close>

fun halve :: "double \<Rightarrow> double" where
  "halve (Finite a) = toDouble (a / 2)"
| "halve PlusInfinity = PlusInfinity"
| "halve MinusInfinity = MinusInfinity"
| "halve NaN = NaN"

fun dabs :: "double \<Rightarrow> double" where
  "dabs (Finite a) = Finite \<bar>a\<bar>"
| "dabs PlusInfinity = PlusInfinity"
| "dabs MinusInfinity = PlusInfinity"
| "dabs NaN = NaN"

text \<open>\<^verbatim>\<open>Math.max(0, x)\<close> and the comparison \<^verbatim>\<open>x > c\<close> with a finite constant.\<close>

fun mathMax0 :: "double \<Rightarrow> double" where
  "mathMax0 (Finite a) = Finite (max 0 a)"
| "mathMax0 PlusInfinity = PlusInfinity"
| "mathMax0 MinusInfinity = Finite 0"
| "mathMax0 NaN = NaN"

fun exceeds :: "double \<Rightarrow> real \<Rightarrow> bool" where
  "exceeds (Finite a) c = (c < a)"
| "exceeds PlusInfinity c = True"
| "exceeds MinusInfinity c = False"
| "exceeds NaN c = False"

fun isNegative :: "double \<Rightarrow> bool" where
  "isNegative (Finite a) = (a < 0)"
| "isNegative PlusInfinity = False"
| "isNegative MinusInfinity = True"
| "isNegative NaN = False"

datatype scroll_cmd = ScrollTo double | ScrollBy double

text \<open>
  What \<^verbatim>\<open>JSON.parse\<close> returned, as far as \<^verbatim>\<open>config.selectors || []\<close> reads it:
  \<^verbatim>\<open>null\<close>, on which the property access throws, or any other value with its
  \<^verbatim>\<open>selectors\<close> property (\<open>None\<close> when the property is absent or falsy). The
  interface \<^verbatim>\<open>ConfigFile\<close> types the property as a list of strings.
\<close>

datatype json_config = JsonNull | JsonValue "string list option"

text \<open>
  A loaded page, as the tool sees it through \<^verbatim>\<open>page.evaluate\<close> and the other calls
  on \<^verbatim>\<open>Page\<close>. \<open>querySelectorIn\<close> is \<^verbatim>\<open>document.querySelector\<close>: it reads the
  \<^verbatim>\<open>data-screenshot\<close> attributes written so far, and throws on a selector the
  browser cannot parse. The answers that depend on time (layout during an animation,
  where a scroll lands, a call that fails, the time and random number of a token) take the
  count of such calls made so far, \<open>clock\<close>. In \<open>state\<close>, \<open>queries\<close> lists the
  selectors handed to \<^verbatim>\<open>document.querySelector\<close>, \<open>scrolls\<close> the scroll commands
  issued, and \<open>saved\<close> the paths \<^verbatim>\<open>page.screenshot\<close> wrote.
\<close>

record page =
  querySelectorIn :: "(elem \<Rightarrow> string option) \<Rightarrow> string \<Rightarrow> error + elem option"
  childrenOf :: "elem \<Rightarrow> elem list"
  initialAttr :: "elem \<Rightarrow> string option"
  initialYOffset :: real
  boundingRect :: "nat \<Rightarrow> real \<Rightarrow> elem \<Rightarrow> rect"
  innerHeight :: real
  scrollLanding :: "nat \<Rightarrow> real \<Rightarrow> scroll_cmd \<Rightarrow> real"
  timeoutError :: "nat \<Rightarrow> nat \<Rightarrow> error option"
  screenshotError :: "nat \<Rightarrow> string \<Rightarrow> error option"
  freshToken :: "nat \<Rightarrow> string"

record system =
  readFileSync :: "string \<Rightarrow> error + string"
  JSON_parse :: "string \<Rightarrow> error + json_config"
  newContextError :: "DeviceType \<Rightarrow> error option"
  gotoPage :: "DeviceType \<Rightarrow> error + page"
  ensureDirError :: "string \<Rightarrow> error option"
  pathJoin :: "string \<Rightarrow> string \<Rightarrow> string"

record state =
  attr :: "elem \<Rightarrow> string option"
  pageYOffset :: real
  clock :: nat
  queries :: "string list"
  scrolls :: "scroll_cmd list"
  console :: "log_entry list"
  saved :: "string list"
  browserOpen :: bool

definition logMsg :: "log_entry \<Rightarrow> state \<Rightarrow> state" where
  "logMsg e s = s\<lparr>console := console s @ [e]\<rparr>"

definition tick :: "state \<Rightarrow> state" where
  "tick s = s\<lparr>clock := Suc (clock s)\<rparr>"

definition andThen ::
  "(state \<Rightarrow> (error + 'a) \<times> state) \<Rightarrow> ('a \<Rightarrow> state \<Rightarrow> (error + 'b) \<times> state)
     \<Rightarrow> state \<Rightarrow> (error + 'b) \<times> state" where
  "andThen m f s = (case m s of (Inl e, s') \<Rightarrow> (Inl e, s') | (Inr x, s') \<Rightarrow> f x s')"

fun forEach ::
  "('a \<Rightarrow> state \<Rightarrow> (error + unit) \<times> state) \<Rightarrow> 'a list \<Rightarrow> state \<Rightarrow> (error + unit) \<times> state" where
  "forEach f [] s = (Inr (), s)"
| "forEach f (x # xs) s =
     (case f x s of (Inl e, s') \<Rightarrow> (Inl e, s') | (Inr u, s') \<Rightarrow> forEach f xs s')"

section \<open>Strings\<close>

definition startsWith :: "string \<Rightarrow> string \<Rightarrow> bool" where
  "startsWith s p = (take (length p) s = p)"

definition truthy :: "string option \<Rightarrow> bool" where
  "truthy v = (case v of None \<Rightarrow> False | Some p \<Rightarrow> p \<noteq> [])"

fun showNat :: "nat \<Rightarrow> string" where
  "showNat n =
     (if n < 10 then [char_of (48 + n)]
      else showNat (n div 10) @ [char_of (48 + n mod 10)])"

declare showNat.simps [simp del]

definition syntheticLocator :: "string \<Rightarrow> string" where
  "syntheticLocator token = ''[data-screenshot='' @ [CHR 0x22] @ token @ [CHR 0x22] @ '']''"

definition targetToken :: "nat \<Rightarrow> string" where
  "targetToken index = ''screenshot-target-'' @ showNat index"

section \<open>Filename derivation\<close>

text \<open>
  \<^verbatim>\<open>generateFilename\<close>, the same five calls in both files. The class
  \<^verbatim>\<open>[^a-z0-9]\<close> with the flag \<^verbatim>\<open>i\<close> and without \<^verbatim>\<open>u\<close> leaves exactly the ASCII
  letters and digits. \<^verbatim>\<open>/^_|_$/g\<close> removes one underscore at the start and one at
  the end. \<^verbatim>\<open>toLowerCase\<close> only ever sees ASCII letters, digits and underscores here.
\<close>

definition isAsciiAlnum :: "char \<Rightarrow> bool" where
  "isAsciiAlnum c =
     (let n = (of_char c :: nat)
      in (48 \<le> n \<and> n \<le> 57) \<or> (65 \<le> n \<and> n \<le> 90) \<or> (97 \<le> n \<and> n \<le> 122))"

definition toLowerChar :: "char \<Rightarrow> char" where
  "toLowerChar c =
     (let n = (of_char c :: nat)
      in if 65 \<le> n \<and> n \<le> 90 then char_of (n + 32) else c)"

fun collapseUnderscores :: "string \<Rightarrow> string" where
  "collapseUnderscores [] = []"
| "collapseUnderscores [c] = [c]"
| "collapseUnderscores (c # d # cs) =
     (if c = CHR ''_'' \<and> d = CHR ''_'' then collapseUnderscores (d # cs)
      else c # collapseUnderscores (d # cs))"

definition trimOneUnderscore :: "string \<Rightarrow> string" where
  "trimOneUnderscore s =
     (let t = (case s of [] \<Rightarrow> [] | c # cs \<Rightarrow> if c = CHR ''_'' then cs else s)
      in if t \<noteq> [] \<and> last t = CHR ''_'' then butlast t else t)"

definition cleanSelector :: "string \<Rightarrow> string" where
  "cleanSelector selector =
     map toLowerChar
       (trimOneUnderscore
         (collapseUnderscores
           (map (\<lambda>c. if isAsciiAlnum c then c else CHR ''_'')
             (filter (\<lambda>c. c \<noteq> CHR ''#'' \<and> c \<noteq> CHR ''.'') selector))))"

definition generateFilename :: "string \<Rightarrow> DeviceType \<Rightarrow> string" where
  "generateFilename selector dev = cleanSelector selector @ ''__'' @ deviceName dev @ ''.png''"

text \<open>
  The derivation as the specification words it, step by step, for comparison with the
  code: strip \<^verbatim>\<open>#\<close> and \<^verbatim>\<open>.\<close>; replace every remaining character outside
  \<^verbatim>\<open>[A-Za-z0-9]\<close> with an underscore; collapse consecutive underscores to one; strip
  leading and trailing underscores (all of them); lowercase; append the device suffix.
  The letters and digits are listed, and lowercasing is a table from \<^verbatim>\<open>A-Z\<close> to
  \<^verbatim>\<open>a-z\<close>, so that nothing here rests on the character codes the code model uses.
\<close>

definition specAlphanumeric :: "char \<Rightarrow> bool" where
  "specAlphanumeric c =
     (c \<in> set ''ABCDEFGHIJKLMNOPQRSTUVWXYZabcdefghijklmnopqrstuvwxyz0123456789'')"

definition specLowercase :: "char \<Rightarrow> char" where
  "specLowercase c =
     (case map_of (zip ''ABCDEFGHIJKLMNOPQRSTUVWXYZ'' ''abcdefghijklmnopqrstuvwxyz'') c of
        Some l \<Rightarrow> l
      | None \<Rightarrow> c)"

definition specCollapse :: "string \<Rightarrow> string" where
  "specCollapse s =
     foldr (\<lambda>c acc. if c = CHR ''_'' \<and> acc \<noteq> [] \<and> hd acc = CHR ''_'' then acc else c # acc) s []"

definition specStrip :: "string \<Rightarrow> string" where
  "specStrip s =
     rev (dropWhile (\<lambda>c. c = CHR ''_'') (rev (dropWhile (\<lambda>c. c = CHR ''_'') s)))"

definition specFilename :: "string \<Rightarrow> DeviceType \<Rightarrow> string" where
  "specFilename selector dev =
     map specLowercase
       (specStrip
         (specCollapse
           (map (\<lambda>c. if specAlphanumeric c then c else CHR ''_'')
             (filter (\<lambda>c. c \<notin> {CHR ''#'', CHR ''.''}) selector))))
     @ ''__'' @ deviceName dev @ ''.png''"

fun noDouble :: "string \<Rightarrow> bool" where
  "noDouble [] = True"
| "noDouble [c] = True"
| "noDouble (c # d # cs) = (\<not> (c = CHR ''_'' \<and> d = CHR ''_'') \<and> noDouble (d # cs))"

section \<open>Selector resolution\<close>

definition orEmpty :: "string list option \<Rightarrow> string list" where
  "orEmpty v = (case v of None \<Rightarrow> [] | Some xs \<Rightarrow> xs)"

text \<open>
  \<^verbatim>\<open>SelectorManager.loadSelectorsFromConfig\<close>; \<^verbatim>\<open>getSelectors\<close> of
  \<^verbatim>\<open>index.ts\<close> has the same body.
\<close>

definition loadSelectorsFromConfig ::
  "system \<Rightarrow> ScreenshotOptions \<Rightarrow> state \<Rightarrow> string list \<times> state" where
  "loadSelectorsFromConfig sys opts s =
     (case config opts of
        Some path \<Rightarrow>
          if path \<noteq> [] then
            (case readFileSync sys path of
               Inl e \<Rightarrow> ([], logMsg (ErrorReadingConfig e) s)
             | Inr configData \<Rightarrow>
                 (case JSON_parse sys configData of
                    Inl e \<Rightarrow> ([], logMsg (ErrorReadingConfig e) s)
                  | Inr JsonNull \<Rightarrow>
                      ([], logMsg (ErrorReadingConfig (TypeError ''selectors'')) s)
                  | Inr (JsonValue field) \<Rightarrow> (orEmpty field, s)))
          else (orEmpty (selectors opts), s)
      | None \<Rightarrow> (orEmpty (selectors opts), s))"

definition getSelectors_index ::
  "system \<Rightarrow> ScreenshotOptions \<Rightarrow> state \<Rightarrow> string list \<times> state" where
  "getSelectors_index = loadSelectorsFromConfig"

text \<open>
  \<^verbatim>\<open>Array.from(new Set(xs))\<close>: a Set keeps insertion order and adds a value only
  when it is not yet a member.
\<close>

definition setAdd :: "string list \<Rightarrow> string \<Rightarrow> string list" where
  "setAdd acc x = (if x \<in> set acc then acc else acc @ [x])"

definition arrayFromSet :: "string list \<Rightarrow> string list" where
  "arrayFromSet xs = foldl setAdd [] xs"

definition querySelector :: "page \<Rightarrow> string \<Rightarrow> state \<Rightarrow> (error + elem option) \<times> state" where
  "querySelector pg sel s = (querySelectorIn pg (attr s) sel, s\<lparr>queries := queries s @ [sel]\<rparr>)"

definition setAttribute :: "elem \<Rightarrow> string \<Rightarrow> state \<Rightarrow> state" where
  "setAttribute el v s = s\<lparr>attr := (attr s)(el := Some v)\<rparr>"

fun markChildren :: "elem list \<Rightarrow> nat \<Rightarrow> state \<Rightarrow> string list \<times> state" where
  "markChildren [] index s = ([], s)"
| "markChildren (child # rest) index s =
     (case markChildren rest (Suc index) (setAttribute child (targetToken index) s) of
        (locators, s') \<Rightarrow> (syntheticLocator (targetToken index) # locators, s'))"

text \<open>The callback both files hand to \<^verbatim>\<open>page.evaluate\<close> with the parent selector.\<close>

definition childSelectorsInPage ::
  "page \<Rightarrow> string \<Rightarrow> state \<Rightarrow> (error + string list) \<times> state" where
  "childSelectorsInPage pg parentSel s =
     (case querySelector pg parentSel s of
        (Inl e, s1) \<Rightarrow> (Inl e, s1)
      | (Inr None, s1) \<Rightarrow> (Inr [], s1)
      | (Inr (Some parent), s1) \<Rightarrow>
          (case markChildren (childrenOf pg parent) 0 s1 of (locators, s2) \<Rightarrow> (Inr locators, s2)))"

definition getChildSelectors ::
  "page \<Rightarrow> ScreenshotOptions \<Rightarrow> state \<Rightarrow> (error + string list) \<times> state" where
  "getChildSelectors pg opts s =
     (case parentSelector opts of
        Some p \<Rightarrow>
          if p \<noteq> [] then childSelectorsInPage pg p (logMsg (FindingChildren p) s)
          else (Inr [], s)
      | None \<Rightarrow> (Inr [], s))"

definition getSelectors ::
  "system \<Rightarrow> page \<Rightarrow> ScreenshotOptions \<Rightarrow> state \<Rightarrow> (error + string list) \<times> state" where
  "getSelectors sys pg opts s =
     (case loadSelectorsFromConfig sys opts s of
        (selectors0, s1) \<Rightarrow>
          if truthy (parentSelector opts) then
            (case getChildSelectors pg opts s1 of
               (Inl e, s2) \<Rightarrow> (Inl e, s2)
             | (Inr childSelectors, s2) \<Rightarrow>
                 (Inr (arrayFromSet (selectors0 @ childSelectors)), s2))
          else (Inr selectors0, s1))"

text \<open>
  Lines 127 to 150 of \<^verbatim>\<open>index.ts\<close>: inside the device loop, the variable
  \<^verbatim>\<open>selectors\<close>, declared before the loop, is read and assigned.
\<close>

definition resolveSelectors_index ::
  "page \<Rightarrow> ScreenshotOptions \<Rightarrow> string list \<Rightarrow> state \<Rightarrow> (error + string list) \<times> state" where
  "resolveSelectors_index pg opts sels s =
     (case parentSelector opts of
        Some p \<Rightarrow>
          if p \<noteq> [] then
            (case childSelectorsInPage pg p (logMsg (FindingChildren p) s) of
               (Inl e, s1) \<Rightarrow> (Inl e, s1)
             | (Inr childSelectors, s1) \<Rightarrow>
                 (Inr (arrayFromSet (sels @ childSelectors)),
                  logMsg (FoundChildren (length childSelectors)) s1))
          else (Inr sels, s)
      | None \<Rightarrow> (Inr sels, s))"

section \<open>The selector rewriter\<close>

definition makeSelectorSafe :: "page \<Rightarrow> string \<Rightarrow> state \<Rightarrow> (error + string) \<times> state" where
  "makeSelectorSafe pg selector s =
     (if startsWith selector ''[data-screenshot'' then (Inr selector, s)
      else
        (case querySelector pg selector s of
           (Inl e, s1) \<Rightarrow> (Inl e, s1)
         | (Inr None, s1) \<Rightarrow> (Inl (ElementNotFound selector), s1)
         | (Inr (Some element), s1) \<Rightarrow>
             (let safeId = ''screenshot-'' @ freshToken pg (clock s1)
              in (Inr (syntheticLocator safeId), tick (setAttribute element safeId s1)))))"

text \<open>In \<^verbatim>\<open>index.ts\<close> a \<^verbatim>\<open>.catch\<close> wraps the error of the same callback.\<close>

definition makeSelectorSafe_index :: "page \<Rightarrow> string \<Rightarrow> state \<Rightarrow> (error + string) \<times> state" where
  "makeSelectorSafe_index pg selector s =
     (case makeSelectorSafe pg selector s of
        (Inl e, s1) \<Rightarrow> (Inl (FailedToProcess selector e), s1)
      | (Inr safeSelector, s1) \<Rightarrow> (Inr safeSelector, s1))"

section \<open>The centering heuristic\<close>

text \<open>
  \<^verbatim>\<open>window.scrollTo\<close> and \<^verbatim>\<open>window.scrollBy\<close>. Where the page is when it is next read
  is the page's answer, \<open>scrollLanding\<close>: a smooth scroll may not have arrived, and the
  document may be too short. One rule of the browser is part of the model: the vertical
  scroll offset of a window is never below 0, whatever offset a command asks for.
\<close>

definition scrollPage :: "page \<Rightarrow> scroll_cmd \<Rightarrow> state \<Rightarrow> state" where
  "scrollPage pg cmd s =
     tick (s\<lparr>scrolls := scrolls s @ [cmd],
             pageYOffset := max 0 (scrollLanding pg (clock s) (pageYOffset s) cmd)\<rparr>)"

text \<open>
  The target of Phase A, from the three readings \<^verbatim>\<open>window.pageYOffset\<close>, the bounding
  rectangle and \<^verbatim>\<open>window.innerHeight\<close>, computed as the code does: left to right, each
  operation rounded.
\<close>

definition centerTarget :: "real \<Rightarrow> rect \<Rightarrow> real \<Rightarrow> double" where
  "centerTarget yOffset r viewportHeight =
     (let elementHeight = toDouble (rectHeight r)
      in mathMax0
           (dsub (dadd (toDouble yOffset) (toDouble (rectTop r)))
                 (halve (dsub (toDouble viewportHeight) elementHeight))))"

definition centerElement :: "page \<Rightarrow> string \<Rightarrow> state \<Rightarrow> (error + unit) \<times> state" where
  "centerElement pg sel s =
     (case querySelector pg sel s of
        (Inl e, s1) \<Rightarrow> (Inl e, s1)
      | (Inr None, s1) \<Rightarrow> (Inr (), s1)
      | (Inr (Some element), s1) \<Rightarrow>
          (let r = boundingRect pg (clock s1) (pageYOffset s1) element;
               targetScrollY = centerTarget (pageYOffset s1) r (innerHeight pg)
           in (Inr (), scrollPage pg (ScrollTo targetScrollY) s1)))"

definition positionAdjustment :: "rect \<Rightarrow> real \<Rightarrow> double option" where
  "positionAdjustment r viewportHeight =
     (let elementCenter = dadd (toDouble (rectTop r)) (halve (toDouble (rectHeight r)));
          viewportCenter = halve (toDouble viewportHeight);
          offset = dabs (dsub elementCenter viewportCenter)
      in if exceeds offset 50 then Some (dsub elementCenter viewportCenter) else None)"

definition adjustPosition :: "page \<Rightarrow> string \<Rightarrow> state \<Rightarrow> (error + unit) \<times> state" where
  "adjustPosition pg sel s =
     (case querySelector pg sel s of
        (Inl e, s1) \<Rightarrow> (Inl e, s1)
      | (Inr None, s1) \<Rightarrow> (Inr (), s1)
      | (Inr (Some element), s1) \<Rightarrow>
          (let r = boundingRect pg (clock s1) (pageYOffset s1) element
           in case positionAdjustment r (innerHeight pg) of
                Some adjustment \<Rightarrow> (Inr (), scrollPage pg (ScrollBy adjustment) s1)
              | None \<Rightarrow> (Inr (), tick s1)))"

definition waitForTimeout :: "page \<Rightarrow> nat \<Rightarrow> state \<Rightarrow> (error + unit) \<times> state" where
  "waitForTimeout pg ms s =
     (case timeoutError pg (clock s) ms of
        Some e \<Rightarrow> (Inl e, tick s)
      | None \<Rightarrow> (Inr (), tick s))"

definition triggerAnimation :: "page \<Rightarrow> string \<Rightarrow> state \<Rightarrow> (error + unit) \<times> state" where
  "triggerAnimation pg selector =
     andThen (centerElement pg selector) (\<lambda>_.
     andThen (waitForTimeout pg 500) (\<lambda>_.
     andThen (adjustPosition pg selector) (\<lambda>_.
     waitForTimeout pg 200)))"

section \<open>Capture\<close>

definition screenshot :: "page \<Rightarrow> string \<Rightarrow> state \<Rightarrow> (error + unit) \<times> state" where
  "screenshot pg filepath s =
     (case screenshotError pg (clock s) filepath of
        Some e \<Rightarrow> (Inl e, tick s)
      | None \<Rightarrow> (Inr (), tick (s\<lparr>saved := saved s @ [filepath]\<rparr>)))"

text \<open>
  The body of the \<^verbatim>\<open>try\<close> block of \<^verbatim>\<open>processSelector\<close>, with the rewriter as a
  parameter: \<open>makeSelectorSafe\<close> for the class, \<open>makeSelectorSafe_index\<close> for the loop
  body of \<^verbatim>\<open>index.ts\<close>, which is otherwise the same text.
\<close>

definition selectorSteps ::
  "(page \<Rightarrow> string \<Rightarrow> state \<Rightarrow> (error + string) \<times> state) \<Rightarrow> system \<Rightarrow> page \<Rightarrow> ScreenshotOptions
     \<Rightarrow> string \<Rightarrow> DeviceType \<Rightarrow> state \<Rightarrow> (error + unit) \<times> state" where
  "selectorSteps rewrite sys pg opts selector deviceType =
     andThen (rewrite pg selector) (\<lambda>safeSelector.
     andThen
       (if animationTrigger opts
        then (\<lambda>s. triggerAnimation pg safeSelector (logMsg (TriggeringAnimations safeSelector) s))
        else (\<lambda>s. (Inr (), s))) (\<lambda>_.
     andThen (\<lambda>s. waitForTimeout pg (wait opts) (logMsg (WaitingMs (wait opts)) s)) (\<lambda>_.
     (\<lambda>s. let filename = generateFilename selector deviceType;
              filepath = pathJoin sys (outputDir opts) filename
          in case screenshot pg filepath s of
               (Inl e, s1) \<Rightarrow> (Inl e, s1)
             | (Inr u, s1) \<Rightarrow> (Inr (), logMsg (ScreenshotSaved filepath) s1)))))"

definition tryCatchSelector ::
  "string \<Rightarrow> (state \<Rightarrow> (error + unit) \<times> state) \<Rightarrow> state \<Rightarrow> (error + unit) \<times> state" where
  "tryCatchSelector selector body s =
     (case body (logMsg (ProcessingSelector selector) s) of
        (Inl e, s1) \<Rightarrow> (Inr (), logMsg (ErrorProcessingSelector selector e) s1)
      | (Inr u, s1) \<Rightarrow> (Inr (), s1))"

definition processSelector ::
  "system \<Rightarrow> page \<Rightarrow> ScreenshotOptions \<Rightarrow> string \<Rightarrow> DeviceType \<Rightarrow> state \<Rightarrow> (error + unit) \<times> state" where
  "processSelector sys pg opts selector deviceType =
     tryCatchSelector selector (selectorSteps makeSelectorSafe sys pg opts selector deviceType)"

definition processSelector_index ::
  "system \<Rightarrow> page \<Rightarrow> ScreenshotOptions \<Rightarrow> string \<Rightarrow> DeviceType \<Rightarrow> state \<Rightarrow> (error + unit) \<times> state" where
  "processSelector_index sys pg opts selector deviceType =
     tryCatchSelector selector (selectorSteps makeSelectorSafe_index sys pg opts selector deviceType)"

section \<open>Device passes and the run\<close>

definition getDeviceTypes :: "ScreenshotOptions \<Rightarrow> DeviceType list" where
  "getDeviceTypes opts = (case device opts of Both \<Rightarrow> [Desktop, Mobile] | Single d \<Rightarrow> [d])"

text \<open>
  \<^verbatim>\<open>createBrowserContext\<close> and \<^verbatim>\<open>setupPage\<close>: a new context and page, then the
  navigation. The page that comes back is new: its attributes and scroll offset are its
  own, whatever an earlier page held.
\<close>

definition openPage ::
  "system \<Rightarrow> ScreenshotOptions \<Rightarrow> DeviceType \<Rightarrow> state \<Rightarrow> (error + page) \<times> state" where
  "openPage sys opts deviceType s =
     (case newContextError sys deviceType of
        Some e \<Rightarrow> (Inl e, s)
      | None \<Rightarrow>
          (let s1 = logMsg (Navigating (url opts) (navigationTimeout opts)) s
           in case gotoPage sys deviceType of
                Inl e \<Rightarrow> (Inl e, s1)
              | Inr pg \<Rightarrow>
                  (Inr pg, logMsg PageLoaded
                     (s1\<lparr>attr := initialAttr pg, pageYOffset := initialYOffset pg\<rparr>))))"

definition ensureOutputDirectory ::
  "system \<Rightarrow> ScreenshotOptions \<Rightarrow> state \<Rightarrow> (error + unit) \<times> state" where
  "ensureOutputDirectory sys opts s =
     (case ensureDirError sys (outputDir opts) of Some e \<Rightarrow> (Inl e, s) | None \<Rightarrow> (Inr (), s))"

definition processDevice ::
  "system \<Rightarrow> ScreenshotOptions \<Rightarrow> DeviceType \<Rightarrow> state \<Rightarrow> (error + unit) \<times> state" where
  "processDevice sys opts deviceType s =
     andThen (openPage sys opts deviceType) (\<lambda>pg.
     andThen (getSelectors sys pg opts) (\<lambda>sels.
     andThen (ensureOutputDirectory sys opts) (\<lambda>_.
     forEach (\<lambda>selector. processSelector sys pg opts selector deviceType) sels)))
       (logMsg (ProcessingDevice deviceType) s)"

definition start :: "system \<Rightarrow> ScreenshotOptions \<Rightarrow> state \<Rightarrow> state" where
  "start sys opts s =
     (case forEach (processDevice sys opts) (getDeviceTypes opts) (s\<lparr>browserOpen := True\<rparr>) of
        (Inl e, s1) \<Rightarrow> (logMsg (ErrorCapturing e) s1)\<lparr>browserOpen := False\<rparr>
      | (Inr u, s1) \<Rightarrow> s1\<lparr>browserOpen := False\<rparr>)"

text \<open>
  The device loop of \<^verbatim>\<open>index.ts\<close>. One pass takes the current value of the variable
  \<^verbatim>\<open>selectors\<close> and returns the value the pass leaves in it.
\<close>

definition devicePass_index ::
  "system \<Rightarrow> ScreenshotOptions \<Rightarrow> DeviceType \<Rightarrow> string list \<Rightarrow> state
     \<Rightarrow> (error + string list) \<times> state" where
  "devicePass_index sys opts deviceType sels s =
     andThen (openPage sys opts deviceType) (\<lambda>pg.
     andThen (resolveSelectors_index pg opts sels) (\<lambda>sels'.
     andThen (ensureOutputDirectory sys opts) (\<lambda>_.
     andThen (forEach (\<lambda>selector. processSelector_index sys pg opts selector deviceType) sels')
       (\<lambda>_ s'. (Inr sels', s')))))
       (logMsg (ProcessingDevice deviceType) s)"

fun devicePasses_index ::
  "system \<Rightarrow> ScreenshotOptions \<Rightarrow> DeviceType list \<Rightarrow> string list \<Rightarrow> state
     \<Rightarrow> (error + string list) \<times> state" where
  "devicePasses_index sys opts [] sels s = (Inr sels, s)"
| "devicePasses_index sys opts (d # ds) sels s =
     (case devicePass_index sys opts d sels s of
        (Inl e, s1) \<Rightarrow> (Inl e, s1)
      | (Inr sels', s1) \<Rightarrow> devicePasses_index sys opts ds sels' s1)"

definition captureScreenshots :: "system \<Rightarrow> ScreenshotOptions \<Rightarrow> state \<Rightarrow> state" where
  "captureScreenshots sys opts s =
     (case getSelectors_index sys opts (s\<lparr>browserOpen := True\<rparr>) of
        (sels, s0) \<Rightarrow>
          (case devicePasses_index sys opts (getDeviceTypes opts) sels s0 of
             (Inl e, s1) \<Rightarrow> (logMsg (ErrorCapturing e) s1)\<lparr>browserOpen := False\<rparr>
           | (Inr u, s1) \<Rightarrow> s1\<lparr>browserOpen := False\<rparr>))"

section \<open>Example pages and options\<close>

text \<open>
  A small page to run the definitions on: \<open>css\<close> answers the selectors of the page's
  author, and a selector it does not know is looked up among the \<^verbatim>\<open>data-screenshot\<close>
  attributes of the elements 0 to 3. The page is long and quick: every scroll arrives
  where it was asked to go, a non-finite amount counting as 0. No call fails.
\<close>

definition blankState :: state where
  "blankState = \<lparr>attr = (\<lambda>_. None), pageYOffset = 0, clock = 0, queries = [], scrolls = [],
     console = [], saved = [], browserOpen = False\<rparr>"

definition finitePart :: "double \<Rightarrow> real" where
  "finitePart d = (case d of Finite x \<Rightarrow> x | PlusInfinity \<Rightarrow> 0 | MinusInfinity \<Rightarrow> 0 | NaN \<Rightarrow> 0)"

definition hasLocator :: "(elem \<Rightarrow> string option) \<Rightarrow> string \<Rightarrow> elem \<Rightarrow> bool" where
  "hasLocator a sel el = (case a el of None \<Rightarrow> False | Some v \<Rightarrow> syntheticLocator v = sel)"

definition demoPage :: "(string \<Rightarrow> elem option) \<Rightarrow> (elem \<Rightarrow> elem list) \<Rightarrow> (elem \<Rightarrow> rect) \<Rightarrow> page" where
  "demoPage css kids box =
     \<lparr>querySelectorIn = (\<lambda>a sel. Inr (case css sel of Some el \<Rightarrow> Some el
                                        | None \<Rightarrow> find (hasLocator a sel) [0, 1, 2, 3])),
      childrenOf = kids,
      initialAttr = (\<lambda>_. None),
      initialYOffset = 0,
      boundingRect = (\<lambda>t y el. \<lparr>rectTop = rectTop (box el) - y, rectHeight = rectHeight (box el)\<rparr>),
      innerHeight = 1095,
      scrollLanding = (\<lambda>t y cmd. case cmd of ScrollTo d \<Rightarrow> finitePart d
                                     | ScrollBy d \<Rightarrow> y + finitePart d),
      timeoutError = (\<lambda>t ms. None),
      screenshotError = (\<lambda>t path. None),
      freshToken = showNat\<rparr>"

definition demoSystem :: "(DeviceType \<Rightarrow> page) \<Rightarrow> system" where
  "demoSystem pages =
     \<lparr>readFileSync = (\<lambda>path. Inl (ConfigError ''ENOENT'')),
      JSON_parse = (\<lambda>text. Inl (ConfigError ''SyntaxError'')),
      newContextError = (\<lambda>d. None),
      gotoPage = (\<lambda>d. Inr (pages d)),
      ensureDirError = (\<lambda>dir. None),
      pathJoin = (\<lambda>dir file. dir @ ''/'' @ file)\<rparr>"

definition demoOptions ::
  "string list \<Rightarrow> string option \<Rightarrow> DeviceOption \<Rightarrow> bool \<Rightarrow> ScreenshotOptions" where
  "demoOptions sels parent dev anim =
     \<lparr>url = ''https://example.com'', selectors = Some sels, config = None, wait = 1000,
      animationTrigger = anim, outputDir = ''shots'', navigationTimeout = 60000,
      parentSelector = parent, device = dev\<rparr>"

text \<open>A page whose element 1, 100 pixels high at the top of the document, is \<^verbatim>\<open>.hero\<close>.\<close>

definition heroPage :: page where
  "heroPage = demoPage (\<lambda>sel. if sel = ''.hero'' then Some 1 else None) (\<lambda>el. [])
     (\<lambda>el. \<lparr>rectTop = 0, rectHeight = 100\<rparr>)"

text \<open>A page on which \<^verbatim>\<open>.present\<close> is element 2 and \<^verbatim>\<open>.missing\<close> matches nothing.\<close>

definition presentPage :: page where
  "presentPage = demoPage (\<lambda>sel. if sel = ''.present'' then Some 2 else None) (\<lambda>el. [])
     (\<lambda>el. \<lparr>rectTop = 300, rectHeight = 200\<rparr>)"

text \<open>
  A responsive page: \<^verbatim>\<open>#list\<close> is element 0, with two children in the desktop
  layout and one in the mobile layout.
\<close>

definition listPage :: "DeviceType \<Rightarrow> page" where
  "listPage d = demoPage (\<lambda>sel. if sel = ''#list'' then Some 0 else None)
     (\<lambda>el. if el = 0 then (case d of Desktop \<Rightarrow> [1, 2] | Mobile \<Rightarrow> [1]) else [])
     (\<lambda>el. \<lparr>rectTop = 0, rectHeight = 100\<rparr>)"

text \<open>A page with an element of class \<^verbatim>\<open>hero\<close> and another of id \<^verbatim>\<open>hero\<close>.\<close>

definition twinPage :: page where
  "twinPage = demoPage
     (\<lambda>sel. if sel = ''.hero'' then Some 1 else if sel = ''#hero'' then Some 2 else None)
     (\<lambda>el. []) (\<lambda>el. \<lparr>rectTop = 0, rectHeight = 100\<rparr>)"

section \<open>Reading the console\<close>

text \<open>
  What a run leaves on the console, by kind: the selectors whose processing began, the
  errors caught for a selector, and the errors that ended the run.
\<close>

fun selectorsProcessed :: "log_entry list \<Rightarrow> string list" where
  "selectorsProcessed [] = []"
| "selectorsProcessed (ProcessingSelector sel # es) = sel # selectorsProcessed es"
| "selectorsProcessed (e # es) = selectorsProcessed es"

fun selectorErrors :: "log_entry list \<Rightarrow> (string \<times> error) list" where
  "selectorErrors [] = []"
| "selectorErrors (ErrorProcessingSelector sel e # es) = (sel, e) # selectorErrors es"
| "selectorErrors (e # es) = selectorErrors es"

fun runErrors :: "log_entry list \<Rightarrow> error list" where
  "runErrors [] = []"
| "runErrors (ErrorCapturing e # es) = e # runErrors es"
| "runErrors (e # es) = runErrors es"

section \<open>Evaluation lemmas\<close>

lemma showNat_0: "showNat 0 = ''0''"
  by code_simp

lemma showNat_1: "showNat 1 = ''1''"
  by code_simp

lemma showNat_Suc0: "showNat (Suc 0) = ''1''"
  using showNat_1 by simp

lemmas run_defs =
  captureScreenshots_def start_def getSelectors_index_def loadSelectorsFromConfig_def
  getDeviceTypes_def devicePass_index_def processDevice_def andThen_def openPage_def
  resolveSelectors_index_def getSelectors_def getChildSelectors_def childSelectorsInPage_def
  querySelector_def ensureOutputDirectory_def processSelector_def processSelector_index_def
  tryCatchSelector_def selectorSteps_def makeSelectorSafe_def makeSelectorSafe_index_def
  waitForTimeout_def screenshot_def logMsg_def tick_def setAttribute_def arrayFromSet_def
  setAdd_def truthy_def orEmpty_def startsWith_def syntheticLocator_def targetToken_def
  generateFilename_def cleanSelector_def trimOneUnderscore_def isAsciiAlnum_def toLowerChar_def
  demoSystem_def demoOptions_def demoPage_def blankState_def hasLocator_def Let_def
  showNat_0 showNat_Suc0

lemma hasLocator_missing: "hasLocator a ''.missing'' el = False"
  by (simp add: hasLocator_def syntheticLocator_def split: option.splits)

lemma presentPage_facts:
  "\<forall>d a. querySelectorIn presentPage a ''.missing'' = Inr None"
  "\<forall>d a. \<exists>el. querySelectorIn presentPage a ''.present'' = Inr (Some el)"
  "\<forall>d a sel. \<not> isl (querySelectorIn presentPage a sel)"
  "\<forall>d t ms. timeoutError presentPage t ms = None"
  "\<forall>d t p. screenshotError presentPage t p = None"
  by (simp_all add: presentPage_def demoPage_def hasLocator_missing)

lemma demoSystem_facts:
  "\<forall>d. newContextError (demoSystem pages) d = None \<and> gotoPage (demoSystem pages) d = Inr (pages d)"
  "ensureDirError (demoSystem pages) dir = None"
  "pathJoin (demoSystem pages) dir file = dir @ ''/'' @ file"
  by (simp_all add: demoSystem_def)

lemma demoOptions_facts:
  "config (demoOptions sels parent dev anim) = None"
  "selectors (demoOptions sels parent dev anim) = Some sels"
  "parentSelector (demoOptions sels parent dev anim) = parent"
  "outputDir (demoOptions sels parent dev anim) = ''shots''"
  "getDeviceTypes (demoOptions sels parent Both anim) = [Desktop, Mobile]"
  "getDeviceTypes (demoOptions sels parent (Single d) anim) = [d]"
  by (simp_all add: demoOptions_def getDeviceTypes_def)

lemma blankState_facts:
  "saved blankState = []" "console blankState = []" "attr blankState = (\<lambda>_. None)"
  "pageYOffset blankState = 0" "scrolls blankState = []" "clock blankState = 0"
  by (simp_all add: blankState_def)

section \<open>Filename derivation: the code against the specification's wording\<close>

lemma collapse_nonempty: "xs \<noteq> [] \<Longrightarrow> collapseUnderscores xs \<noteq> [] \<and> hd (collapseUnderscores xs) = hd xs"
  by (induction xs rule: collapseUnderscores.induct) auto

lemma specCollapse_Cons:
  "specCollapse (c # cs) =
     (if c = CHR ''_'' \<and> specCollapse cs \<noteq> [] \<and> hd (specCollapse cs) = CHR ''_''
      then specCollapse cs else c # specCollapse cs)"
  by (simp add: specCollapse_def)

lemma specCollapse_eq: "specCollapse s = collapseUnderscores s"
proof (induction s rule: collapseUnderscores.induct)
  case 1
  show ?case by (simp add: specCollapse_def)
next
  case (2 c)
  show ?case by (simp add: specCollapse_def)
next
  case (3 c d cs)
  have ne: "collapseUnderscores (d # cs) \<noteq> [] \<and> hd (collapseUnderscores (d # cs)) = d"
    using collapse_nonempty [of "d # cs"] by simp
  show ?case
  proof (cases "c = CHR ''_'' \<and> d = CHR ''_''")
    case True
    with 3 ne show ?thesis by (simp add: specCollapse_Cons)
  next
    case False
    with 3 ne show ?thesis by (auto simp add: specCollapse_Cons)
  qed
qed

lemma noDouble_collapse: "noDouble (collapseUnderscores s)"
proof (induction s rule: collapseUnderscores.induct)
  case (3 c d cs)
  have ne: "collapseUnderscores (d # cs) \<noteq> [] \<and> hd (collapseUnderscores (d # cs)) = d"
    using collapse_nonempty [of "d # cs"] by simp
  then obtain e es where e: "collapseUnderscores (d # cs) = e # es"
    by (cases "collapseUnderscores (d # cs)") auto
  with ne have "e = d" by simp
  with 3 e show ?case by auto
qed simp_all

lemma noDouble_tl: "noDouble (c # cs) \<Longrightarrow> noDouble cs"
  by (cases cs) auto

lemma noDouble_snoc2: "noDouble (ys @ [c, d]) \<Longrightarrow> \<not> (c = CHR ''_'' \<and> d = CHR ''_'')"
  by (induction ys rule: noDouble.induct) auto

lemma dropWhile_lead:
  "noDouble t \<Longrightarrow>
   dropWhile (\<lambda>c. c = CHR ''_'') t = (case t of [] \<Rightarrow> [] | c # cs \<Rightarrow> if c = CHR ''_'' then cs else t)"
  by (cases t rule: noDouble.cases) auto

lemma noDouble_butlast: "noDouble (ys @ [c]) \<Longrightarrow> noDouble ys"
  by (induction ys rule: noDouble.induct) auto

lemma dropWhile_trail:
  assumes "noDouble t"
  shows "rev (dropWhile (\<lambda>c. c = CHR ''_'') (rev t)) =
         (if t \<noteq> [] \<and> last t = CHR ''_'' then butlast t else t)"
proof (cases t rule: rev_cases)
  case Nil
  then show ?thesis by simp
next
  case (snoc ys d)
  show ?thesis
  proof (cases ys rule: rev_cases)
    case Nil
    with snoc show ?thesis by simp
  next
    case (snoc zs c)
    with \<open>t = ys @ [d]\<close> assms have "\<not> (c = CHR ''_'' \<and> d = CHR ''_'')"
      using noDouble_snoc2 [of zs c d] by simp
    moreover have "butlast (zs @ [c, d]) = zs @ [c]"
      using butlast_snoc [of "zs @ [c]" d] by simp
    ultimately show ?thesis using snoc \<open>t = ys @ [d]\<close> by auto
  qed
qed

lemma specStrip_eq: "noDouble s \<Longrightarrow> specStrip s = trimOneUnderscore s"
proof -
  assume nd: "noDouble s"
  let ?t = "dropWhile (\<lambda>c. c = CHR ''_'') s"
  have t: "?t = (case s of [] \<Rightarrow> [] | c # cs \<Rightarrow> if c = CHR ''_'' then cs else s)"
    using nd by (rule dropWhile_lead)
  have "noDouble ?t"
    using nd t by (cases s) (auto dest: noDouble_tl)
  then have "rev (dropWhile (\<lambda>c. c = CHR ''_'') (rev ?t)) =
      (if ?t \<noteq> [] \<and> last ?t = CHR ''_'' then butlast ?t else ?t)"
    by (rule dropWhile_trail)
  then show ?thesis
    unfolding specStrip_def trimOneUnderscore_def Let_def t by simp
qed

lemma filter_spec: "filter (\<lambda>c. c \<notin> {CHR ''#'', CHR ''.''}) s = filter (\<lambda>c. c \<noteq> CHR ''#'' \<and> c \<noteq> CHR ''.'') s"
  by (induction s) auto

text \<open>
  The character tests of the code, by character code, agree with the listed letters and
  digits of the specification on every character.
\<close>

lemma toLowerChar_spec: "toLowerChar c = specLowercase c"
proof -
  have "\<forall>c::char. toLowerChar c = specLowercase c"
    by code_simp
  then show ?thesis by blast
qed

lemma isAsciiAlnum_spec: "isAsciiAlnum c = specAlphanumeric c"
proof -
  have "\<forall>c::char. isAsciiAlnum c = specAlphanumeric c"
    by code_simp
  then show ?thesis by blast
qed

lemma toLowerChar_range:
  "isAsciiAlnum c \<or> c = CHR ''_'' \<Longrightarrow>
   toLowerChar c \<in> set ''abcdefghijklmnopqrstuvwxyz0123456789_''"
proof -
  have "\<forall>c::char. isAsciiAlnum c \<or> c = CHR ''_'' \<longrightarrow>
          toLowerChar c \<in> set ''abcdefghijklmnopqrstuvwxyz0123456789_''"
    by code_simp
  then show "isAsciiAlnum c \<or> c = CHR ''_'' \<Longrightarrow>
    toLowerChar c \<in> set ''abcdefghijklmnopqrstuvwxyz0123456789_''" by blast
qed

lemma toLowerChar_underscore: "toLowerChar c = CHR ''_'' \<longleftrightarrow> c = CHR ''_''"
proof -
  have "\<forall>c::char. toLowerChar c = CHR ''_'' \<longleftrightarrow> c = CHR ''_''"
    by code_simp
  then show ?thesis by blast
qed

lemma generateFilename_refines: "generateFilename selector dev = specFilename selector dev"
proof -
  have l: "specLowercase = toLowerChar"
    by (rule ext) (simp add: toLowerChar_spec)
  have a: "specAlphanumeric = isAsciiAlnum"
    by (rule ext) (simp add: isAsciiAlnum_spec)
  show ?thesis
    by (simp add: generateFilename_def specFilename_def cleanSelector_def specCollapse_eq
        specStrip_eq noDouble_collapse filter_spec l a)
qed

text \<open>What the cleaned selector looks like, whatever the selector.\<close>

lemma set_collapse: "set (collapseUnderscores s) \<subseteq> set s"
  by (induction s rule: collapseUnderscores.induct) auto

lemma set_trim: "set (trimOneUnderscore s) \<subseteq> set s"
  by (cases s) (auto simp: trimOneUnderscore_def Let_def dest: in_set_butlastD split: if_splits)

lemma cleanSelector_chars:
  "set (cleanSelector selector) \<subseteq> set ''abcdefghijklmnopqrstuvwxyz0123456789_''"
proof
  fix c assume "c \<in> set (cleanSelector selector)"
  then obtain b where b: "c = toLowerChar b"
    and "b \<in> set (trimOneUnderscore (collapseUnderscores
           (map (\<lambda>c. if isAsciiAlnum c then c else CHR ''_'')
             (filter (\<lambda>c. c \<noteq> CHR ''#'' \<and> c \<noteq> CHR ''.'') selector))))"
    by (auto simp: cleanSelector_def)
  then have "b \<in> set (map (\<lambda>c. if isAsciiAlnum c then c else CHR ''_'')
             (filter (\<lambda>c. c \<noteq> CHR ''#'' \<and> c \<noteq> CHR ''.'') selector))"
    using set_trim set_collapse by blast
  then have "isAsciiAlnum b \<or> b = CHR ''_''" by auto
  with b show "c \<in> set ''abcdefghijklmnopqrstuvwxyz0123456789_''"
    using toLowerChar_range by blast
qed

lemma last_dropWhile: "dropWhile P xs \<noteq> [] \<Longrightarrow> last (dropWhile P xs) = last xs"
  by (induction xs) auto

lemma noDouble_trim: "noDouble s \<Longrightarrow> noDouble (trimOneUnderscore s)"
proof -
  assume nd: "noDouble s"
  let ?t = "case s of [] \<Rightarrow> [] | c # cs \<Rightarrow> if c = CHR ''_'' then cs else s"
  have t: "noDouble ?t"
    using nd by (cases s) (auto dest: noDouble_tl)
  have "noDouble (butlast ?t)"
  proof (cases "?t = []")
    case True
    then show ?thesis by simp
  next
    case False
    then have "butlast ?t @ [last ?t] = ?t" by simp
    with t show ?thesis using noDouble_butlast [of "butlast ?t" "last ?t"] by simp
  qed
  with t show ?thesis by (simp add: trimOneUnderscore_def Let_def)
qed

lemma noDouble_map:
  "noDouble s \<Longrightarrow> noDouble (map toLowerChar s)"
  by (induction s rule: noDouble.induct) (auto simp: toLowerChar_underscore)

lemma noDouble_cleanSelector: "noDouble (cleanSelector selector)"
  by (simp add: cleanSelector_def noDouble_map noDouble_trim noDouble_collapse)

lemma specStrip_ends:
  assumes "specStrip s \<noteq> []"
  shows "hd (specStrip s) \<noteq> CHR ''_'' \<and> last (specStrip s) \<noteq> CHR ''_''"
proof -
  define d where "d = dropWhile (\<lambda>c. c = CHR ''_'') s"
  define e where "e = dropWhile (\<lambda>c. c = CHR ''_'') (rev d)"
  have st: "specStrip s = rev e"
    by (simp only: specStrip_def d_def e_def)
  from assms st have e: "e \<noteq> []" by simp
  then have rd: "rev d \<noteq> []" unfolding e_def by auto
  then have dn: "d \<noteq> []" by simp
  have "hd e \<noteq> CHR ''_''"
    using e hd_dropWhile [of "\<lambda>c. c = CHR ''_''" "rev d"] unfolding e_def by blast
  moreover have "last (rev e) = hd e"
    using e by (simp only: last_rev)
  ultimately have l: "last (specStrip s) \<noteq> CHR ''_''"
    using st by metis
  have "hd d \<noteq> CHR ''_''"
    using dn hd_dropWhile [of "\<lambda>c. c = CHR ''_''" s] unfolding d_def by blast
  moreover have "last e = last (rev d)"
    using e last_dropWhile [of "\<lambda>c. c = CHR ''_''" "rev d"] unfolding e_def by blast
  moreover have "last (rev d) = hd d"
    using dn by (simp only: last_rev)
  moreover have "hd (rev e) = last e"
    using e by (simp only: hd_rev)
  ultimately have h: "hd (specStrip s) \<noteq> CHR ''_''"
    using st by metis
  from h l show ?thesis by blast
qed

lemma cleanSelector_ends:
  assumes "cleanSelector selector \<noteq> []"
  shows "hd (cleanSelector selector) \<noteq> CHR ''_'' \<and> last (cleanSelector selector) \<noteq> CHR ''_''"
proof -
  let ?m = "collapseUnderscores (map (\<lambda>c. if isAsciiAlnum c then c else CHR ''_'')
             (filter (\<lambda>c. c \<noteq> CHR ''#'' \<and> c \<noteq> CHR ''.'') selector))"
  have c: "cleanSelector selector = map toLowerChar (specStrip ?m)"
    by (simp add: cleanSelector_def specStrip_eq noDouble_collapse)
  with assms have ne: "specStrip ?m \<noteq> []" by simp
  from specStrip_ends [OF ne] c ne show ?thesis
    by (simp only: hd_map last_map toLowerChar_underscore simp_thms)
qed

text \<open>
  Claim C3. The filename is a function of the selector and the device alone, and it is
  the one the specification describes: strip \<^verbatim>\<open>#\<close> and \<^verbatim>\<open>.\<close>, replace every other
  character outside \<^verbatim>\<open>[A-Za-z0-9]\<close> with an underscore, collapse runs of underscores,
  strip leading and trailing underscores, lowercase, append \<^verbatim>\<open>__<device>.png\<close>. The code
  removes only one underscore at each end; after the collapse there is never more than
  one. Whatever the selector, the part before the suffix holds nothing but lower-case
  letters, digits and single underscores, and neither starts nor ends with an
  underscore. The two examples of the specification evaluate as it says, and so does a
  selector with upper-case letters, a digit, blanks and a combinator.
\<close>

theorem generateFilename_spec:
  "generateFilename selector dev = specFilename selector dev
   \<and> generateFilename selector dev = cleanSelector selector @ ''__'' @ deviceName dev @ ''.png''
   \<and> set (cleanSelector selector) \<subseteq> set ''abcdefghijklmnopqrstuvwxyz0123456789_''
   \<and> noDouble (cleanSelector selector)
   \<and> (cleanSelector selector \<noteq> [] \<longrightarrow>
        hd (cleanSelector selector) \<noteq> CHR ''_'' \<and> last (cleanSelector selector) \<noteq> CHR ''_'')
   \<and> generateFilename ''.hero-banner'' Mobile = ''hero_banner__mobile.png''
   \<and> generateFilename ''#main'' Desktop = ''main__desktop.png''
   \<and> generateFilename ''#Main-Nav 2 > LI.Item'' Desktop = ''main_nav_2_liitem__desktop.png''"
proof -
  note ev = generateFilename_def cleanSelector_def trimOneUnderscore_def isAsciiAlnum_def
    toLowerChar_def
  have a: "generateFilename ''.hero-banner'' Mobile = ''hero_banner__mobile.png''"
    by (simp add: ev)
  have b: "generateFilename ''#main'' Desktop = ''main__desktop.png''"
    by (simp add: ev)
  have c: "generateFilename ''#Main-Nav 2 > LI.Item'' Desktop = ''main_nav_2_liitem__desktop.png''"
    by code_simp
  note d = noDouble_cleanSelector [of selector]
  have e: "generateFilename selector dev = cleanSelector selector @ ''__'' @ deviceName dev @ ''.png''"
    by (simp add: generateFilename_def)
  have f: "cleanSelector selector \<noteq> [] \<longrightarrow>
        hd (cleanSelector selector) \<noteq> CHR ''_'' \<and> last (cleanSelector selector) \<noteq> CHR ''_''"
    using cleanSelector_ends [of selector] by blast
  show ?thesis
    apply (intro conjI)
           apply (rule generateFilename_refines)
          apply (rule e)
         apply (rule cleanSelector_chars)
        apply (rule d)
       apply (rule f)
      apply (rule a)
     apply (rule b)
    apply (rule c)
    done
qed

theorem generateFilename_spec_witness:
  "generateFilename ''__Foo.Bar  9 > #Baz__'' Mobile = ''foobar_9_baz__mobile.png''
   \<and> specFilename ''__Foo.Bar  9 > #Baz__'' Mobile = ''foobar_9_baz__mobile.png''
   \<and> generateFilename ''.hero-banner'' Mobile = ''hero_banner__mobile.png''
   \<and> generateFilename ''#main'' Desktop = ''main__desktop.png''"
proof -
  have s: "specFilename ''__Foo.Bar  9 > #Baz__'' Mobile = ''foobar_9_baz__mobile.png''"
    by code_simp
  from generateFilename_spec [of "''__Foo.Bar  9 > #Baz__''" Mobile]
  have "generateFilename ''__Foo.Bar  9 > #Baz__'' Mobile
          = specFilename ''__Foo.Bar  9 > #Baz__'' Mobile
      \<and> generateFilename ''.hero-banner'' Mobile = ''hero_banner__mobile.png''
      \<and> generateFilename ''#main'' Desktop = ''main__desktop.png''"
    by blast
  with s show ?thesis by simp
qed

text \<open>
  Claim C10. The derivation is not injective in the selector: \<^verbatim>\<open>.hero\<close> and
  \<^verbatim>\<open>#hero\<close>, and \<^verbatim>\<open>a b\<close> and \<^verbatim>\<open>a_b\<close>, give the same filename on any device. On
  a page where both \<^verbatim>\<open>.hero\<close> and \<^verbatim>\<open>#hero\<close> match, one device pass writes the same
  path twice, so the second capture replaces the first.
\<close>

theorem generateFilename_not_injective:
  "''.hero'' \<noteq> ''#hero'' \<and> generateFilename ''.hero'' dev = generateFilename ''#hero'' dev
   \<and> ''a b'' \<noteq> ''a_b'' \<and> generateFilename ''a b'' dev = generateFilename ''a_b'' dev
   \<and> \<not> inj (\<lambda>selector. generateFilename selector dev)
   \<and> saved (start (demoSystem (\<lambda>d. twinPage))
         (demoOptions [''.hero'', ''#hero''] None (Single Desktop) False) blankState)
       = [''shots/hero__desktop.png'', ''shots/hero__desktop.png'']"
proof -
  have a: "generateFilename ''.hero'' dev = generateFilename ''#hero'' dev"
    by (simp add: generateFilename_def cleanSelector_def)
  have b: "generateFilename ''a b'' dev = generateFilename ''a_b'' dev"
    by (simp add: generateFilename_def cleanSelector_def isAsciiAlnum_def)
  have c: "\<not> inj (\<lambda>selector. generateFilename selector dev)"
  proof
    assume "inj (\<lambda>selector. generateFilename selector dev)"
    then have "''.hero'' = ''#hero''" using a by (auto dest: injD)
    then show False by simp
  qed
  have d: "saved (start (demoSystem (\<lambda>d. twinPage))
         (demoOptions [''.hero'', ''#hero''] None (Single Desktop) False) blankState)
       = [''shots/hero__desktop.png'', ''shots/hero__desktop.png'']"
    by (simp add: run_defs twinPage_def)
  from a b c d show ?thesis by simp
qed

theorem generateFilename_not_injective_witness:
  "generateFilename ''.hero'' Mobile = generateFilename ''#hero'' Mobile
   \<and> generateFilename ''a b'' Mobile = generateFilename ''a_b'' Mobile"
  using generateFilename_not_injective [of Mobile] by simp

section \<open>The selector rewriter\<close>

text \<open>
  Claim C6. A selector that starts with \<^verbatim>\<open>[data-screenshot\<close> passes through the
  rewriter unchanged, in both files, and the state comes back as it went in: no selector
  was handed to \<^verbatim>\<open>querySelector\<close> and no attribute was written.
\<close>

theorem makeSelectorSafe_synthetic_unchanged:
  assumes "startsWith selector ''[data-screenshot''"
  shows "makeSelectorSafe pg selector s = (Inr selector, s)
       \<and> makeSelectorSafe_index pg selector s = (Inr selector, s)"
  using assms by (simp add: makeSelectorSafe_def makeSelectorSafe_index_def)

theorem makeSelectorSafe_synthetic_unchanged_witness:
  "startsWith (syntheticLocator ''x'') ''[data-screenshot''
   \<and> makeSelectorSafe heroPage (syntheticLocator ''x'') blankState = (Inr (syntheticLocator ''x''), blankState)
   \<and> makeSelectorSafe_index heroPage (syntheticLocator ''x'') blankState
       = (Inr (syntheticLocator ''x''), blankState)"
proof -
  have h: "startsWith (syntheticLocator ''x'') ''[data-screenshot''"
    by (simp add: startsWith_def syntheticLocator_def)
  show ?thesis
    using h makeSelectorSafe_synthetic_unchanged [OF h, of heroPage blankState] by simp
qed

text \<open>
  What the rewriter returns always has that prefix, so handing a result back to the
  rewriter changes nothing.
\<close>

lemma startsWith_syntheticLocator: "startsWith (syntheticLocator t) ''[data-screenshot''"
  by (simp add: startsWith_def syntheticLocator_def)

lemma makeSelectorSafe_result_synthetic:
  "makeSelectorSafe pg selector s = (Inr r, s') \<Longrightarrow> startsWith r ''[data-screenshot''"
  by (auto simp: makeSelectorSafe_def Let_def startsWith_syntheticLocator
      split: if_splits prod.splits sum.splits option.splits)

lemma makeSelectorSafe_idempotent:
  "makeSelectorSafe pg selector s = (Inr r, s') \<Longrightarrow> makeSelectorSafe pg r s' = (Inr r, s')"
  using makeSelectorSafe_result_synthetic [of pg selector s r s']
  by (simp add: makeSelectorSafe_def)

section \<open>The centering heuristic\<close>

text \<open>Sequenced steps, case by case.\<close>

lemma andThen_cases:
  assumes "andThen m f s = (res, s')"
  obtains (fails) e where "m s = (Inl e, s')" and "res = Inl e"
        | (goes) x s1 where "m s = (Inr x, s1)" and "f x s1 = (res, s')"
  using assms by (auto simp: andThen_def split: prod.splits sum.splits)

text \<open>
  Evaluating the rounding. The pixel measures of the examples are doubles, their halves
  too; decimal fractions such as 415.1 are not, and are rounded when they are read.
\<close>

lemma ulpSearch_numeral:
  "ulpSearch (numeral k) a u =
     (if a < u * 2 ^ 52 then (if u \<le> 1 / 2 ^ 1074 then u else ulpSearch (pred_numeral k) a (u / 2))
      else if u * 2 ^ 53 \<le> a then ulpSearch (pred_numeral k) a (u * 2)
      else u)"
  by (simp add: numeral_eq_Suc)

lemmas double_eval = toDouble_def roundFinite_def roundHalfEven_def ulpSearch_numeral dsub_def
  Let_def

lemma toDouble_examples:
  "toDouble 0 = Finite 0" "toDouble 50 = Finite 50" "toDouble 100 = Finite 100"
  "toDouble 1095 = Finite 1095" "toDouble 995 = Finite 995"
  "toDouble (1095 / 2) = Finite (1095 / 2)" "toDouble (995 / 2) = Finite (995 / 2)"
  "toDouble (- (995 / 2)) = Finite (- (995 / 2))"
  by (simp_all add: double_eval)

lemma toDouble_decimals:
  "toDouble (4151 / 10) = Finite (3651258213518541 / 8796093022208)"
  "toDouble (2698 / 10) = Finite (4746371794783437 / 17592186044416)"
  "toDouble (1 / 10) = Finite (3602879701896397 / 36028797018963968)"
  by (simp_all add: double_eval)

lemma threshold_rounding:
  "positionAdjustment \<lparr>rectTop = 4151 / 10, rectHeight = 2698 / 10\<rparr> 1000 = None"
  "(50::real) < \<bar>3651258213518541 / 8796093022208 + 4746371794783437 / 17592186044416 / 2
                 - 1000 / 2\<bar>"
  by (simp_all add: positionAdjustment_def double_eval)


lemma dabs_not_negative: "\<not> isNegative (dabs d)"
  by (cases d) auto

lemma dsub_Finite: "dsub (Finite a) (Finite b) = toDouble (a - b)"
  by (simp add: dsub_def)

text \<open>
  Claim C8, as the code has it. Phase B scrolls exactly when the absolute difference
  between the centre of the element and the centre of the viewport, computed as the code
  computes it in double arithmetic, exceeds 50. The amount handed to \<^verbatim>\<open>scrollBy\<close> is not
  that absolute difference but the signed difference, element centre minus viewport
  centre: its absolute value exceeds 50, and it is negative when the element's centre
  lies above the viewport's. For an element the page finds, \<^verbatim>\<open>adjustPosition\<close> issues
  that one \<^verbatim>\<open>scrollBy\<close> or no scroll at all. Where no operation rounds, the test is the
  test on the exact values.
\<close>

theorem adjustPosition_scrolls_iff:
  "(positionAdjustment r vh \<noteq> None \<longleftrightarrow>
      exceeds (dabs (dsub (dadd (toDouble (rectTop r)) (halve (toDouble (rectHeight r))))
                          (halve (toDouble vh)))) 50)
   \<and> (positionAdjustment r vh = Some a \<longrightarrow>
        a = dsub (dadd (toDouble (rectTop r)) (halve (toDouble (rectHeight r))))
                 (halve (toDouble vh))
        \<and> exceeds (dabs a) 50)
   \<and> (querySelectorIn pg (attr s) sel = Inr (Some el) \<longrightarrow>
        scrolls (snd (adjustPosition pg sel s)) =
          scrolls s @
            (case positionAdjustment (boundingRect pg (clock s) (pageYOffset s) el) (innerHeight pg) of
               Some adjustment \<Rightarrow> [ScrollBy adjustment]
             | None \<Rightarrow> []))
   \<and> (toDouble (rectTop r) = Finite (rectTop r) \<and> toDouble (rectHeight r) = Finite (rectHeight r)
        \<and> toDouble vh = Finite vh \<and> toDouble (rectHeight r / 2) = Finite (rectHeight r / 2)
        \<and> toDouble (vh / 2) = Finite (vh / 2)
        \<and> toDouble (rectTop r + rectHeight r / 2) = Finite (rectTop r + rectHeight r / 2)
        \<and> toDouble (rectTop r + rectHeight r / 2 - vh / 2)
            = Finite (rectTop r + rectHeight r / 2 - vh / 2)
       \<longrightarrow> positionAdjustment r vh =
             (if 50 < \<bar>rectTop r + rectHeight r / 2 - vh / 2\<bar>
              then Some (Finite (rectTop r + rectHeight r / 2 - vh / 2)) else None))"
proof -
  have a: "positionAdjustment r vh \<noteq> None \<longleftrightarrow>
      exceeds (dabs (dsub (dadd (toDouble (rectTop r)) (halve (toDouble (rectHeight r))))
                          (halve (toDouble vh)))) 50"
    by (simp add: positionAdjustment_def Let_def)
  have b: "positionAdjustment r vh = Some a \<longrightarrow>
        a = dsub (dadd (toDouble (rectTop r)) (halve (toDouble (rectHeight r))))
                 (halve (toDouble vh))
        \<and> exceeds (dabs a) 50"
    by (auto simp: positionAdjustment_def Let_def split: if_splits)
  have c: "querySelectorIn pg (attr s) sel = Inr (Some el) \<longrightarrow>
        scrolls (snd (adjustPosition pg sel s)) =
          scrolls s @
            (case positionAdjustment (boundingRect pg (clock s) (pageYOffset s) el) (innerHeight pg) of
               Some adjustment \<Rightarrow> [ScrollBy adjustment]
             | None \<Rightarrow> [])"
    by (auto simp: adjustPosition_def querySelector_def scrollPage_def tick_def Let_def
        split: option.splits)
  have d: "toDouble (rectTop r) = Finite (rectTop r) \<and> toDouble (rectHeight r) = Finite (rectHeight r)
        \<and> toDouble vh = Finite vh \<and> toDouble (rectHeight r / 2) = Finite (rectHeight r / 2)
        \<and> toDouble (vh / 2) = Finite (vh / 2)
        \<and> toDouble (rectTop r + rectHeight r / 2) = Finite (rectTop r + rectHeight r / 2)
        \<and> toDouble (rectTop r + rectHeight r / 2 - vh / 2)
            = Finite (rectTop r + rectHeight r / 2 - vh / 2)
       \<longrightarrow> positionAdjustment r vh =
             (if 50 < \<bar>rectTop r + rectHeight r / 2 - vh / 2\<bar>
              then Some (Finite (rectTop r + rectHeight r / 2 - vh / 2)) else None)"
    by (simp add: positionAdjustment_def Let_def dsub_Finite)
  from a b c d show ?thesis by blast
qed

theorem adjustPosition_scrolls_iff_witness:
  "positionAdjustment \<lparr>rectTop = 500, rectHeight = 100\<rparr> 1095 = None
   \<and> positionAdjustment \<lparr>rectTop = 0, rectHeight = 100\<rparr> 1095 = Some (Finite (- (995 / 2)))
   \<and> exceeds (dabs (Finite (- (995 / 2)))) 50
   \<and> querySelectorIn heroPage (attr blankState) ''.hero'' = Inr (Some 1)
   \<and> scrolls (snd (adjustPosition heroPage ''.hero'' blankState)) = [ScrollBy (Finite (- (995 / 2)))]"
proof -
  let ?r = "\<lparr>rectTop = 0, rectHeight = 100\<rparr>"
  have q: "querySelectorIn heroPage (attr blankState) ''.hero'' = Inr (Some 1)"
    by (simp add: heroPage_def demoPage_def)
  have b: "boundingRect heroPage (clock blankState) (pageYOffset blankState) 1 = ?r"
    by (simp add: heroPage_def demoPage_def blankState_def)
  have i: "innerHeight heroPage = 1095"
    by (simp add: heroPage_def demoPage_def)
  have s0: "scrolls blankState = []"
    by (simp add: blankState_def)
  have ex: "toDouble (rectTop ?r) = Finite (rectTop ?r) \<and> toDouble (rectHeight ?r) = Finite (rectHeight ?r)
        \<and> toDouble 1095 = Finite 1095 \<and> toDouble (rectHeight ?r / 2) = Finite (rectHeight ?r / 2)
        \<and> toDouble (1095 / 2) = Finite (1095 / 2)
        \<and> toDouble (rectTop ?r + rectHeight ?r / 2) = Finite (rectTop ?r + rectHeight ?r / 2)
        \<and> toDouble (rectTop ?r + rectHeight ?r / 2 - 1095 / 2)
            = Finite (rectTop ?r + rectHeight ?r / 2 - 1095 / 2)"
    by (simp add: toDouble_examples)
  have p2: "positionAdjustment \<lparr>rectTop = 500, rectHeight = 100\<rparr> 1095 = None"
    by (simp add: positionAdjustment_def double_eval)
  from adjustPosition_scrolls_iff [of ?r 1095 "Finite (- (995 / 2))" heroPage blankState
      "''.hero''" 1]
  have p: "positionAdjustment ?r 1095 = Some (Finite (- (995 / 2)))"
    and e: "positionAdjustment ?r 1095 = Some (Finite (- (995 / 2))) \<longrightarrow>
            exceeds (dabs (Finite (- (995 / 2)))) 50"
    and sc: "scrolls (snd (adjustPosition heroPage ''.hero'' blankState)) =
          scrolls blankState @
            (case positionAdjustment ?r 1095 of Some adjustment \<Rightarrow> [ScrollBy adjustment]
             | None \<Rightarrow> [])"
    using q b i ex by simp_all
  from p e sc p2 q s0 show ?thesis by simp
qed

text \<open>
  Claim C8 as stated fails on two counts. For an element 100 pixels high at the top of
  the document in a viewport of 1095 pixels, the absolute difference of the centres is
  497.5 and Phase B scrolls by -497.5. And for the doubles nearest to 415.1 and 269.8 as
  top and height in a viewport of 1000 pixels, the exact distance of the centres exceeds
  50, but the sum the code computes rounds to a distance of exactly 50 and no scroll is
  issued.
\<close>

theorem scroll_amount_is_signed_counterexample:
  "scrolls (snd (adjustPosition heroPage ''.hero'' blankState)) = [ScrollBy (Finite (- (995 / 2)))]
   \<and> \<bar>((0::real) + 100 / 2) - 1095 / 2\<bar> = 995 / 2
   \<and> Finite (- (995 / 2)) \<noteq> Finite (995 / 2)
   \<and> positionAdjustment \<lparr>rectTop = 3651258213518541 / 8796093022208,
        rectHeight = 4746371794783437 / 17592186044416\<rparr> 1000 = None
   \<and> (50::real) < \<bar>3651258213518541 / 8796093022208 + 4746371794783437 / 17592186044416 / 2
                 - 1000 / 2\<bar>"
  by (simp add: adjustPosition_def querySelector_def heroPage_def demoPage_def blankState_def
      positionAdjustment_def scrollPage_def tick_def double_eval)







section \<open>Selector resolution\<close>

lemma foldl_setAdd_distinct: "distinct acc \<Longrightarrow> distinct (foldl setAdd acc xs)"
  by (induction xs arbitrary: acc) (auto simp: setAdd_def)

lemma foldl_setAdd_set: "set (foldl setAdd acc xs) = set acc \<union> set xs"
  by (induction xs arbitrary: acc) (auto simp: setAdd_def)

lemma foldl_setAdd_id: "distinct (acc @ xs) \<Longrightarrow> foldl setAdd acc xs = acc @ xs"
  by (induction xs arbitrary: acc) (auto simp: setAdd_def)

lemma arrayFromSet_distinct: "distinct (arrayFromSet xs)"
  by (simp add: arrayFromSet_def foldl_setAdd_distinct)

lemma arrayFromSet_set: "set (arrayFromSet xs) = set xs"
  by (simp add: arrayFromSet_def foldl_setAdd_set)

lemma arrayFromSet_id: "distinct xs \<Longrightarrow> arrayFromSet xs = xs"
  using foldl_setAdd_id [of "[]" xs] by (simp add: arrayFromSet_def)

lemma count_list_distinct: "distinct r \<Longrightarrow> x \<in> set r \<Longrightarrow> count_list r x = 1"
  by (induction r) auto

lemma arrayFromSet_count: "x \<in> set xs \<Longrightarrow> count_list (arrayFromSet xs) x = 1"
  by (simp add: count_list_distinct arrayFromSet_distinct arrayFromSet_set)

text \<open>The array made from the Set keeps the first occurrence of every string, in order.\<close>

lemma remdups_snoc: "remdups (ys @ [x]) = filter (\<lambda>y. y \<noteq> x) (remdups ys) @ [x]"
  by (induction ys) auto

lemma firstOccurrences_Cons:
  "rev (remdups (rev (x # xs))) = x # filter (\<lambda>y. y \<noteq> x) (rev (remdups (rev xs)))"
  by (simp add: remdups_snoc rev_filter)

lemma foldl_setAdd_first:
  "foldl setAdd acc xs = acc @ filter (\<lambda>x. x \<notin> set acc) (rev (remdups (rev xs)))"
proof (induction xs arbitrary: acc)
  case Nil
  show ?case by simp
next
  case (Cons x xs)
  show ?case
  proof (cases "x \<in> set acc")
    case True
    then have "filter (\<lambda>y. y \<notin> set acc) (filter (\<lambda>y. y \<noteq> x) (rev (remdups (rev xs))))
        = filter (\<lambda>y. y \<notin> set acc) (rev (remdups (rev xs)))"
      by (auto intro: filter_cong)
    with True Cons [of acc] show ?thesis
      by (simp add: setAdd_def firstOccurrences_Cons del: rev.simps)
  next
    case False
    have "filter (\<lambda>y. y \<notin> set (acc @ [x])) (rev (remdups (rev xs)))
        = filter (\<lambda>y. y \<notin> set acc) (filter (\<lambda>y. y \<noteq> x) (rev (remdups (rev xs))))"
      by (auto intro: filter_cong)
    with False Cons [of "acc @ [x]"] show ?thesis
      by (simp add: setAdd_def firstOccurrences_Cons del: rev.simps)
  qed
qed

lemma arrayFromSet_first_occurrences: "arrayFromSet xs = rev (remdups (rev xs))"
  using foldl_setAdd_first [of "[]" xs] by (simp add: arrayFromSet_def)

lemma loadSelectors_attr: "attr (snd (loadSelectorsFromConfig sys opts s)) = attr s"
  by (simp add: loadSelectorsFromConfig_def logMsg_def
      split: option.splits sum.splits json_config.splits)

lemma markChildren_length: "length (fst (markChildren cs i s)) = length cs"
proof (induction cs arbitrary: i s)
  case Nil
  show ?case by simp
next
  case (Cons c cs)
  from Cons [of "Suc i" "setAttribute c (targetToken i) s"] show ?case
    by (cases "markChildren cs (Suc i) (setAttribute c (targetToken i) s)") simp
qed

text \<open>The children of the parent get the locators of the indices 0, 1, ... in order.\<close>

lemma markChildren_locators:
  "fst (markChildren cs i s)
     = map (\<lambda>k. syntheticLocator (targetToken k)) [i..<i + length cs]"
proof (induction cs arbitrary: i s)
  case Nil
  show ?case by simp
next
  case (Cons c cs)
  from Cons [of "Suc i" "setAttribute c (targetToken i) s"] show ?case
    by (cases "markChildren cs (Suc i) (setAttribute c (targetToken i) s)")
      (simp add: upt_conv_Cons del: upt_Suc)
qed

lemma childSelectorsInPage_found:
  assumes "querySelectorIn pg (attr s) p = Inr (Some parent)"
  shows "fst (childSelectorsInPage pg p s)
           = Inr (map (\<lambda>k. syntheticLocator (targetToken k)) [0..<length (childrenOf pg parent)])"
proof -
  let ?s1 = "s\<lparr>queries := queries s @ [p]\<rparr>"
  obtain ls s2 where m: "markChildren (childrenOf pg parent) 0 ?s1 = (ls, s2)"
    by (cases "markChildren (childrenOf pg parent) 0 ?s1")
  with markChildren_locators [of "childrenOf pg parent" 0 ?s1]
  have "ls = map (\<lambda>k. syntheticLocator (targetToken k)) [0..<length (childrenOf pg parent)]"
    by simp
  with assms m show ?thesis
    by (simp add: childSelectorsInPage_def querySelector_def)
qed

lemma getChildSelectors_found:
  assumes "parentSelector opts = Some p" and "p \<noteq> []"
      and "querySelectorIn pg (attr s) p = Inr (Some parent)"
  shows "fst (getChildSelectors pg opts s)
           = Inr (map (\<lambda>k. syntheticLocator (targetToken k)) [0..<length (childrenOf pg parent)])"
  using assms childSelectorsInPage_found [of pg "logMsg (FindingChildren p) s" p parent]
  by (simp add: getChildSelectors_def logMsg_def)

text \<open>
  Claim C1, as the code has it. Whenever a parent selector is given (a non-empty
  string), the list is built through a Set: for the base list \<open>L\<close> and the child list
  \<open>C\<close> that the page returns, the result is the array of the Set of \<open>L\<close> followed by
  \<open>C\<close>, that is the first occurrence of every string, in order. It has no duplicates and
  holds exactly the strings of \<open>L\<close> and \<open>C\<close>, each once. This holds for \<^verbatim>\<open>getSelectors\<close>
  of the class and for the assignment inside the device loop of \<^verbatim>\<open>index.ts\<close>. The child
  list of a parent the page finds holds one synthetic locator for each child. When no
  parent selector is given, no Set is built and the base list is the result as it is.
\<close>

theorem resolution_unique_with_parent:
  "(truthy (parentSelector opts) \<longrightarrow>
      (getChildSelectors pg opts (snd (loadSelectorsFromConfig sys opts s)) = (Inr C, s2) \<longrightarrow>
         getSelectors sys pg opts s
           = (Inr (arrayFromSet (fst (loadSelectorsFromConfig sys opts s) @ C)), s2))
      \<and> (getSelectors sys pg opts s = (Inr r, s') \<longrightarrow>
           distinct r
           \<and> set (fst (loadSelectorsFromConfig sys opts s)) \<subseteq> set r
           \<and> (\<forall>x \<in> set (fst (loadSelectorsFromConfig sys opts s)). count_list r x = 1))
      \<and> (parentSelector opts = Some p
           \<and> childSelectorsInPage pg p (logMsg (FindingChildren p) s) = (Inr C, s2) \<longrightarrow>
           resolveSelectors_index pg opts L s
             = (Inr (arrayFromSet (L @ C)), logMsg (FoundChildren (length C)) s2))
      \<and> (resolveSelectors_index pg opts L s = (Inr r, s') \<longrightarrow>
           distinct r \<and> set L \<subseteq> set r \<and> (\<forall>x \<in> set L. count_list r x = 1)))
   \<and> (parentSelector opts = Some p \<and> p \<noteq> []
        \<and> querySelectorIn pg (attr s) p = Inr (Some parent) \<longrightarrow>
        fst (getChildSelectors pg opts s)
          = Inr (map (\<lambda>k. syntheticLocator (targetToken k)) [0..<length (childrenOf pg parent)])
        \<and> fst (childSelectorsInPage pg p (logMsg (FindingChildren p) s))
          = Inr (map (\<lambda>k. syntheticLocator (targetToken k)) [0..<length (childrenOf pg parent)]))
   \<and> arrayFromSet (L @ C) = rev (remdups (rev (L @ C)))
   \<and> distinct (arrayFromSet (L @ C))
   \<and> set (arrayFromSet (L @ C)) = set L \<union> set C
   \<and> (\<forall>x \<in> set L \<union> set C. count_list (arrayFromSet (L @ C)) x = 1)
   \<and> (\<not> truthy (parentSelector opts) \<longrightarrow>
        getSelectors sys pg opts s
          = (Inr (fst (loadSelectorsFromConfig sys opts s)), snd (loadSelectorsFromConfig sys opts s))
        \<and> resolveSelectors_index pg opts L s = (Inr L, s))"
proof -
  have a1: "truthy (parentSelector opts) \<longrightarrow>
      getChildSelectors pg opts (snd (loadSelectorsFromConfig sys opts s)) = (Inr C, s2) \<longrightarrow>
         getSelectors sys pg opts s
           = (Inr (arrayFromSet (fst (loadSelectorsFromConfig sys opts s) @ C)), s2)"
    by (simp add: getSelectors_def split: prod.splits)
  have a2: "truthy (parentSelector opts) \<longrightarrow> getSelectors sys pg opts s = (Inr r, s') \<longrightarrow>
           distinct r
           \<and> set (fst (loadSelectorsFromConfig sys opts s)) \<subseteq> set r
           \<and> (\<forall>x \<in> set (fst (loadSelectorsFromConfig sys opts s)). count_list r x = 1)"
    by (auto simp: getSelectors_def arrayFromSet_distinct arrayFromSet_count arrayFromSet_set
        split: prod.splits sum.splits)
  have a3: "truthy (parentSelector opts) \<longrightarrow> parentSelector opts = Some p
           \<and> childSelectorsInPage pg p (logMsg (FindingChildren p) s) = (Inr C, s2) \<longrightarrow>
           resolveSelectors_index pg opts L s
             = (Inr (arrayFromSet (L @ C)), logMsg (FoundChildren (length C)) s2)"
    by (auto simp: resolveSelectors_index_def truthy_def)
  have a4: "truthy (parentSelector opts) \<longrightarrow> resolveSelectors_index pg opts L s = (Inr r, s') \<longrightarrow>
           distinct r \<and> set L \<subseteq> set r \<and> (\<forall>x \<in> set L. count_list r x = 1)"
    by (auto simp: resolveSelectors_index_def truthy_def arrayFromSet_distinct arrayFromSet_count
        arrayFromSet_set split: prod.splits sum.splits option.splits if_splits)
  have b: "parentSelector opts = Some p \<and> p \<noteq> []
        \<and> querySelectorIn pg (attr s) p = Inr (Some parent) \<longrightarrow>
        fst (getChildSelectors pg opts s)
          = Inr (map (\<lambda>k. syntheticLocator (targetToken k)) [0..<length (childrenOf pg parent)])
        \<and> fst (childSelectorsInPage pg p (logMsg (FindingChildren p) s))
          = Inr (map (\<lambda>k. syntheticLocator (targetToken k)) [0..<length (childrenOf pg parent)])"
    using getChildSelectors_found [of opts p pg s parent]
      childSelectorsInPage_found [of pg "logMsg (FindingChildren p) s" p parent]
    by (simp add: logMsg_def)
  have c: "arrayFromSet (L @ C) = rev (remdups (rev (L @ C)))
   \<and> distinct (arrayFromSet (L @ C))
   \<and> set (arrayFromSet (L @ C)) = set L \<union> set C
   \<and> (\<forall>x \<in> set L \<union> set C. count_list (arrayFromSet (L @ C)) x = 1)"
  proof -
    have "\<forall>x \<in> set L \<union> set C. count_list (arrayFromSet (L @ C)) x = 1"
      by (simp add: arrayFromSet_count)
    then show ?thesis
      using arrayFromSet_first_occurrences [of "L @ C"] arrayFromSet_distinct [of "L @ C"]
        arrayFromSet_set [of "L @ C"]
      by (simp only: set_append simp_thms)
  qed
  have d: "\<not> truthy (parentSelector opts) \<longrightarrow>
        getSelectors sys pg opts s
          = (Inr (fst (loadSelectorsFromConfig sys opts s)), snd (loadSelectorsFromConfig sys opts s))
        \<and> resolveSelectors_index pg opts L s = (Inr L, s)"
    by (auto simp: getSelectors_def resolveSelectors_index_def truthy_def
        split: prod.splits option.splits)
  from a1 a2 a3 a4 b c d show ?thesis by blast
qed

theorem resolution_unique_with_parent_witness:
  "truthy (parentSelector (demoOptions [''.a'', ''.a''] (Some ''#list'') Both False))
   \<and> fst (getChildSelectors (listPage Desktop)
          (demoOptions [''.a'', ''.a''] (Some ''#list'') Both False) blankState)
     = Inr [syntheticLocator ''screenshot-target-0'', syntheticLocator ''screenshot-target-1'']
   \<and> fst (getSelectors (demoSystem listPage) (listPage Desktop)
          (demoOptions [''.a'', ''.a''] (Some ''#list'') Both False) blankState)
     = Inr [''.a'', syntheticLocator ''screenshot-target-0'', syntheticLocator ''screenshot-target-1'']
   \<and> fst (resolveSelectors_index (listPage Desktop)
          (demoOptions [''.a'', ''.a''] (Some ''#list'') Both False) [''.b'', ''.a'', ''.b''] blankState)
     = Inr [''.b'', ''.a'', syntheticLocator ''screenshot-target-0'',
            syntheticLocator ''screenshot-target-1'']
   \<and> count_list [''.a'', syntheticLocator ''screenshot-target-0'',
         syntheticLocator ''screenshot-target-1''] ''.a'' = 1"
proof -
  let ?opts = "demoOptions [''.a'', ''.a''] (Some ''#list'') Both False"
  let ?pg = "listPage Desktop"
  let ?sys = "demoSystem listPage"
  let ?C = "[syntheticLocator ''screenshot-target-0'', syntheticLocator ''screenshot-target-1'']"
  let ?L = "[''.b'', ''.a'', ''.b'']"
  let ?s1 = "logMsg (FindingChildren ''#list'') blankState"
  have h: "truthy (parentSelector ?opts)"
    by (simp add: demoOptions_def truthy_def)
  have p: "parentSelector ?opts = Some ''#list''"
    by (simp add: demoOptions_def)
  have q: "querySelectorIn ?pg (attr blankState) ''#list'' = Inr (Some 0)"
    by (simp add: listPage_def demoPage_def)
  have k: "map (\<lambda>k. syntheticLocator (targetToken k)) [0..<length (childrenOf ?pg 0)] = ?C"
    by (simp add: listPage_def demoPage_def targetToken_def showNat_0 showNat_Suc0 upt_rec)
  have l: "loadSelectorsFromConfig ?sys ?opts blankState = ([''.a'', ''.a''], blankState)"
    by (simp add: loadSelectorsFromConfig_def demoOptions_def orEmpty_def)
  have a: "arrayFromSet ([''.a'', ''.a''] @ ?C) = ''.a'' # ?C"
    "arrayFromSet (?L @ ?C) = [''.b'', ''.a''] @ ?C"
    by (simp_all add: arrayFromSet_def setAdd_def syntheticLocator_def)
  note th = resolution_unique_with_parent [where opts = ?opts and pg = ?pg and sys = ?sys
      and s = blankState and C = ?C and p = "''#list''" and parent = 0 and L = "[''.a'', ''.a'']"]
  note ti = resolution_unique_with_parent [where opts = ?opts and pg = ?pg and sys = ?sys
      and s = blankState and C = ?C and p = "''#list''" and parent = 0 and L = ?L
      and ?s2.0 = "snd (childSelectorsInPage ?pg ''#list'' ?s1)"]
  from th p q have "fst (childSelectorsInPage ?pg ''#list'' ?s1)
      = Inr (map (\<lambda>k. syntheticLocator (targetToken k)) [0..<length (childrenOf ?pg 0)])"
    by blast
  with k have i: "fst (childSelectorsInPage ?pg ''#list'' ?s1) = Inr ?C"
    by simp
  from th p q have "fst (getChildSelectors ?pg ?opts blankState)
      = Inr (map (\<lambda>k. syntheticLocator (targetToken k)) [0..<length (childrenOf ?pg 0)])"
    by blast
  with k have c: "fst (getChildSelectors ?pg ?opts blankState) = Inr ?C"
    by simp
  then have c': "getChildSelectors ?pg ?opts (snd (loadSelectorsFromConfig ?sys ?opts blankState))
      = (Inr ?C, snd (getChildSelectors ?pg ?opts blankState))"
    using l by (simp add: prod_eq_iff)
  from th [where ?s2.0 = "snd (getChildSelectors ?pg ?opts blankState)"] h c'
  have "getSelectors ?sys ?pg ?opts blankState
      = (Inr (arrayFromSet (fst (loadSelectorsFromConfig ?sys ?opts blankState) @ ?C)),
         snd (getChildSelectors ?pg ?opts blankState))"
    by blast
  with l a have g: "fst (getSelectors ?sys ?pg ?opts blankState) = Inr (''.a'' # ?C)"
    by simp
  from i have i': "childSelectorsInPage ?pg ''#list'' ?s1
      = (Inr ?C, snd (childSelectorsInPage ?pg ''#list'' ?s1))"
    by (simp add: prod_eq_iff)
  from ti h p i'
  have "resolveSelectors_index ?pg ?opts ?L blankState
      = (Inr (arrayFromSet (?L @ ?C)),
         logMsg (FoundChildren (length ?C)) (snd (childSelectorsInPage ?pg ''#list'' ?s1)))"
    by blast
  with a have r: "fst (resolveSelectors_index ?pg ?opts ?L blankState) = Inr ([''.b'', ''.a''] @ ?C)"
    by simp
  from th have "\<forall>x \<in> set [''.a'', ''.a''] \<union> set ?C.
      count_list (arrayFromSet ([''.a'', ''.a''] @ ?C)) x = 1"
    by blast
  with a have n: "count_list (''.a'' # ?C) ''.a'' = 1"
    by simp
  from h c g r n show ?thesis by simp
qed

text \<open>
  Claim C1 as stated fails when no parent selector is given: no Set is built, and
  the base list \<^verbatim>\<open>[".a", ".a"]\<close> comes back with its duplicate.
\<close>

theorem duplicates_kept_without_parent_counterexample:
  "fst (getSelectors (demoSystem (\<lambda>d. heroPage)) heroPage
          (demoOptions [''.a'', ''.a''] None Both False) blankState) = Inr [''.a'', ''.a'']
   \<and> \<not> distinct [''.a'', ''.a'']
   \<and> fst (resolveSelectors_index heroPage (demoOptions [''.a'', ''.a''] None Both False)
          [''.a'', ''.a''] blankState) = Inr [''.a'', ''.a'']"
  by (simp add: getSelectors_def loadSelectorsFromConfig_def resolveSelectors_index_def
      demoOptions_def truthy_def orEmpty_def)

text \<open>
  Claim C5, as the code has it. When the parent selector matches no element, no child
  is contributed, nothing is written to the page and no error is raised; the result is
  the base list with its duplicates removed, which is the base list itself when that has
  no duplicates.
\<close>

theorem missing_parent_deduplicates:
  assumes "parentSelector opts = Some p" and "p \<noteq> []"
      and "querySelectorIn pg (attr s) p = Inr None"
  shows "fst (getSelectors sys pg opts s)
           = Inr (arrayFromSet (fst (loadSelectorsFromConfig sys opts s)))
       \<and> (distinct (fst (loadSelectorsFromConfig sys opts s)) \<longrightarrow>
            fst (getSelectors sys pg opts s) = Inr (fst (loadSelectorsFromConfig sys opts s)))
       \<and> attr (snd (getSelectors sys pg opts s)) = attr s
       \<and> fst (resolveSelectors_index pg opts L s) = Inr (arrayFromSet L)
       \<and> (distinct L \<longrightarrow> fst (resolveSelectors_index pg opts L s) = Inr L)
       \<and> attr (snd (resolveSelectors_index pg opts L s)) = attr s
       \<and> arrayFromSet L = rev (remdups (rev L))
       \<and> distinct (arrayFromSet L) \<and> set (arrayFromSet L) = set L"
proof -
  obtain base s1 where l: "loadSelectorsFromConfig sys opts s = (base, s1)"
    by (cases "loadSelectorsFromConfig sys opts s")
  then have s1: "attr s1 = attr s"
    using loadSelectors_attr [of sys opts s] by simp
  have g: "getChildSelectors pg opts s1 =
      (Inr [], (logMsg (FindingChildren p) s1)\<lparr>queries := queries s1 @ [p]\<rparr>)"
    using assms s1
    by (simp add: getChildSelectors_def childSelectorsInPage_def querySelector_def logMsg_def)
  have "getSelectors sys pg opts s =
      (Inr (arrayFromSet base), (logMsg (FindingChildren p) s1)\<lparr>queries := queries s1 @ [p]\<rparr>)"
    using assms l g by (simp add: getSelectors_def truthy_def)
  moreover have "resolveSelectors_index pg opts L s =
      (Inr (arrayFromSet L),
       logMsg (FoundChildren 0) ((logMsg (FindingChildren p) s)\<lparr>queries := queries s @ [p]\<rparr>))"
    using assms
    by (simp add: resolveSelectors_index_def childSelectorsInPage_def querySelector_def logMsg_def)
  ultimately have "fst (getSelectors sys pg opts s)
           = Inr (arrayFromSet (fst (loadSelectorsFromConfig sys opts s)))
       \<and> (distinct (fst (loadSelectorsFromConfig sys opts s)) \<longrightarrow>
            fst (getSelectors sys pg opts s) = Inr (fst (loadSelectorsFromConfig sys opts s)))
       \<and> attr (snd (getSelectors sys pg opts s)) = attr s
       \<and> fst (resolveSelectors_index pg opts L s) = Inr (arrayFromSet L)
       \<and> (distinct L \<longrightarrow> fst (resolveSelectors_index pg opts L s) = Inr L)
       \<and> attr (snd (resolveSelectors_index pg opts L s)) = attr s"
    using l s1 by (simp add: arrayFromSet_id logMsg_def)
  then show ?thesis
    using arrayFromSet_first_occurrences [of L] arrayFromSet_distinct [of L]
      arrayFromSet_set [of L]
    by blast
qed

theorem missing_parent_deduplicates_witness:
  "parentSelector (demoOptions [''.a'', ''.b''] (Some ''#nope'') Both False) = Some ''#nope''
   \<and> querySelectorIn heroPage (attr blankState) ''#nope'' = Inr None
   \<and> fst (getSelectors (demoSystem (\<lambda>d. heroPage)) heroPage
          (demoOptions [''.a'', ''.b''] (Some ''#nope'') Both False) blankState)
       = Inr [''.a'', ''.b'']
   \<and> fst (resolveSelectors_index heroPage (demoOptions [''.a'', ''.b''] (Some ''#nope'') Both False)
          [''.a'', ''.a'', ''.b''] blankState) = Inr [''.a'', ''.b'']"
proof -
  let ?opts = "demoOptions [''.a'', ''.b''] (Some ''#nope'') Both False"
  have p: "parentSelector ?opts = Some ''#nope''" by (simp add: demoOptions_def)
  have n: "''#nope'' \<noteq> []" by simp
  have q: "querySelectorIn heroPage (attr blankState) ''#nope'' = Inr None"
    by (simp add: heroPage_def demoPage_def blankState_def hasLocator_def)
  have b: "fst (loadSelectorsFromConfig (demoSystem (\<lambda>d. heroPage)) ?opts blankState)
             = [''.a'', ''.b'']"
    by (simp add: loadSelectorsFromConfig_def demoOptions_def orEmpty_def)
  have a: "arrayFromSet [''.a'', ''.a'', ''.b''] = [''.a'', ''.b'']"
    "arrayFromSet [''.a'', ''.b''] = [''.a'', ''.b'']"
    by (simp_all add: arrayFromSet_def setAdd_def)
  from missing_parent_deduplicates [OF p n q, of "demoSystem (\<lambda>d. heroPage)"
      "[''.a'', ''.a'', ''.b'']"]
  show ?thesis using p q b a by simp
qed

text \<open>
  Claim C5 as stated fails on a base list with a duplicate: with \<^verbatim>\<open>[".a", ".a"]\<close>
  and a parent that matches nothing, the result is \<^verbatim>\<open>[".a"]\<close>.
\<close>

theorem missing_parent_drops_duplicates_counterexample:
  "fst (loadSelectorsFromConfig (demoSystem (\<lambda>d. heroPage))
          (demoOptions [''.a'', ''.a''] (Some ''#nope'') Both False) blankState) = [''.a'', ''.a'']
   \<and> querySelectorIn heroPage (attr blankState) ''#nope'' = Inr None
   \<and> fst (getSelectors (demoSystem (\<lambda>d. heroPage)) heroPage
          (demoOptions [''.a'', ''.a''] (Some ''#nope'') Both False) blankState) = Inr [''.a'']
   \<and> fst (resolveSelectors_index heroPage (demoOptions [''.a'', ''.a''] (Some ''#nope'') Both False)
          [''.a'', ''.a''] blankState) = Inr [''.a'']"
  by (simp add: run_defs heroPage_def)

text \<open>
  Claim C7, as the code has it. When a config path is given as a non-empty string and
  reading the file or parsing it throws, the error is appended to the console, nothing
  else of the state changes and the base list is empty: the config reader returns
  normally, in both files, and \<^verbatim>\<open>getSelectors\<close> goes on as it would with no config and
  no selectors, returning the empty list when there is no parent selector. When the
  config path is absent or the empty string, no file is read and nothing is logged: the
  base list is the list of the \<^verbatim>\<open>selectors\<close> option.
\<close>

theorem config_error_nonfatal:
  "(config opts = Some path \<and> path \<noteq> []
      \<and> (readFileSync sys path = Inl e
           \<or> (\<exists>text. readFileSync sys path = Inr text \<and> JSON_parse sys text = Inl e)) \<longrightarrow>
      loadSelectorsFromConfig sys opts s
        = ([], s\<lparr>console := console s @ [ErrorReadingConfig e]\<rparr>)
      \<and> console (snd (loadSelectorsFromConfig sys opts s)) = console s @ [ErrorReadingConfig e]
      \<and> getSelectors_index sys opts s
          = ([], s\<lparr>console := console s @ [ErrorReadingConfig e]\<rparr>)
      \<and> getSelectors sys pg opts s
          = getSelectors sys pg (opts\<lparr>selectors := None, config := None\<rparr>)
              (s\<lparr>console := console s @ [ErrorReadingConfig e]\<rparr>)
      \<and> (\<not> truthy (parentSelector opts) \<longrightarrow>
           getSelectors sys pg opts s
             = (Inr [], s\<lparr>console := console s @ [ErrorReadingConfig e]\<rparr>)))
   \<and> (\<not> truthy (config opts) \<longrightarrow>
        loadSelectorsFromConfig sys opts s = (orEmpty (selectors opts), s)
        \<and> getSelectors_index sys opts s = (orEmpty (selectors opts), s))"
proof -
  have r: "loadSelectorsFromConfig sys (opts\<lparr>selectors := None, config := None\<rparr>) t = ([], t)" for t
    by (simp add: loadSelectorsFromConfig_def orEmpty_def)
  have g: "getChildSelectors pg (opts\<lparr>selectors := None, config := None\<rparr>) t
      = getChildSelectors pg opts t" for t
    by (simp add: getChildSelectors_def)
  have a: "loadSelectorsFromConfig sys opts s
        = ([], s\<lparr>console := console s @ [ErrorReadingConfig e]\<rparr>)
      \<and> console (snd (loadSelectorsFromConfig sys opts s)) = console s @ [ErrorReadingConfig e]
      \<and> getSelectors_index sys opts s
          = ([], s\<lparr>console := console s @ [ErrorReadingConfig e]\<rparr>)
      \<and> getSelectors sys pg opts s
          = getSelectors sys pg (opts\<lparr>selectors := None, config := None\<rparr>)
              (s\<lparr>console := console s @ [ErrorReadingConfig e]\<rparr>)
      \<and> (\<not> truthy (parentSelector opts) \<longrightarrow>
           getSelectors sys pg opts s
             = (Inr [], s\<lparr>console := console s @ [ErrorReadingConfig e]\<rparr>))"
    if h: "config opts = Some path \<and> path \<noteq> []
      \<and> (readFileSync sys path = Inl e
           \<or> (\<exists>text. readFileSync sys path = Inr text \<and> JSON_parse sys text = Inl e))"
  proof -
    have l: "loadSelectorsFromConfig sys opts s
        = ([], s\<lparr>console := console s @ [ErrorReadingConfig e]\<rparr>)"
      using h by (auto simp: loadSelectorsFromConfig_def logMsg_def)
    show ?thesis
      using l r g by (simp add: getSelectors_def getSelectors_index_def)
  qed
  have b: "\<not> truthy (config opts) \<longrightarrow>
        loadSelectorsFromConfig sys opts s = (orEmpty (selectors opts), s)
        \<and> getSelectors_index sys opts s = (orEmpty (selectors opts), s)"
    by (auto simp: loadSelectorsFromConfig_def getSelectors_index_def truthy_def
        split: option.splits)
  from a b show ?thesis by blast
qed

theorem config_error_nonfatal_witness:
  "config ((demoOptions [''.a''] None Both False)\<lparr>config := Some ''missing.json''\<rparr>)
     = Some ''missing.json''
   \<and> readFileSync (demoSystem (\<lambda>d. heroPage)) ''missing.json'' = Inl (ConfigError ''ENOENT'')
   \<and> loadSelectorsFromConfig (demoSystem (\<lambda>d. heroPage))
        ((demoOptions [''.a''] None Both False)\<lparr>config := Some ''missing.json''\<rparr>) blankState
       = ([], blankState\<lparr>console := [ErrorReadingConfig (ConfigError ''ENOENT'')]\<rparr>)
   \<and> console (snd (loadSelectorsFromConfig (demoSystem (\<lambda>d. heroPage))
        ((demoOptions [''.a''] None Both False)\<lparr>config := Some ''missing.json''\<rparr>) blankState))
       = [ErrorReadingConfig (ConfigError ''ENOENT'')]
   \<and> getSelectors (demoSystem (\<lambda>d. heroPage)) heroPage
        ((demoOptions [''.a''] None Both False)\<lparr>config := Some ''missing.json''\<rparr>) blankState
       = (Inr [], blankState\<lparr>console := [ErrorReadingConfig (ConfigError ''ENOENT'')]\<rparr>)
   \<and> loadSelectorsFromConfig (demoSystem (\<lambda>d. heroPage)) (demoOptions [''.a''] None Both False)
        blankState = ([''.a''], blankState)"
proof -
  let ?opts = "(demoOptions [''.a''] None Both False)\<lparr>config := Some ''missing.json''\<rparr>"
  let ?sys = "demoSystem (\<lambda>d. heroPage)"
  have c: "config ?opts = Some ''missing.json''" by simp
  have n: "''missing.json'' \<noteq> []" by simp
  have r: "readFileSync ?sys ''missing.json'' = Inl (ConfigError ''ENOENT'')"
    by (simp add: demoSystem_def)
  have p: "\<not> truthy (parentSelector ?opts)"
    by (simp add: demoOptions_def truthy_def)
  have b: "console blankState = []"
    by (simp add: blankState_def)
  have t: "\<not> truthy (config (demoOptions [''.a''] None Both False))"
    "orEmpty (selectors (demoOptions [''.a''] None Both False)) = [''.a'']"
    by (simp_all add: demoOptions_def truthy_def orEmpty_def)
  note th = config_error_nonfatal [where opts = ?opts and path = "''missing.json''" and sys = ?sys
      and e = "ConfigError ''ENOENT''" and s = blankState and pg = heroPage]
  note tn = config_error_nonfatal [where opts = "demoOptions [''.a''] None Both False"
      and sys = ?sys and s = blankState]
  from th c n r p
  have "loadSelectorsFromConfig ?sys ?opts blankState
      = ([], blankState\<lparr>console := console blankState @ [ErrorReadingConfig (ConfigError ''ENOENT'')]\<rparr>)
    \<and> console (snd (loadSelectorsFromConfig ?sys ?opts blankState))
      = console blankState @ [ErrorReadingConfig (ConfigError ''ENOENT'')]
    \<and> getSelectors ?sys heroPage ?opts blankState
      = (Inr [], blankState\<lparr>console := console blankState @ [ErrorReadingConfig (ConfigError ''ENOENT'')]\<rparr>)"
    by blast
  moreover from tn t
  have "loadSelectorsFromConfig ?sys (demoOptions [''.a''] None Both False) blankState
      = ([''.a''], blankState)"
    by simp
  ultimately show ?thesis using c r b by simp
qed

text \<open>
  Claim C7 as stated fails for the empty path. No file has that path, yet the code
  does not try to read it: with the selectors option \<^verbatim>\<open>[".a"]\<close> the base list is
  \<^verbatim>\<open>[".a"]\<close>, not the empty list, and the console stays empty.
\<close>

theorem empty_config_path_counterexample:
  "config ((demoOptions [''.a''] None Both False)\<lparr>config := Some []\<rparr>) = Some []
   \<and> readFileSync (demoSystem (\<lambda>d. heroPage)) [] = Inl (ConfigError ''ENOENT'')
   \<and> loadSelectorsFromConfig (demoSystem (\<lambda>d. heroPage))
        ((demoOptions [''.a''] None Both False)\<lparr>config := Some []\<rparr>) blankState
       = ([''.a''], blankState)
   \<and> console blankState = []
   \<and> getSelectors_index (demoSystem (\<lambda>d. heroPage))
        ((demoOptions [''.a''] None Both False)\<lparr>config := Some []\<rparr>) blankState
       = ([''.a''], blankState)
   \<and> getSelectors (demoSystem (\<lambda>d. heroPage)) heroPage
        ((demoOptions [''.a''] None Both False)\<lparr>config := Some []\<rparr>) blankState
       = (Inr [''.a''], blankState)"
  by (simp add: loadSelectorsFromConfig_def getSelectors_index_def getSelectors_def
      demoOptions_def demoSystem_def orEmpty_def truthy_def blankState_def)

section \<open>Failure isolation\<close>

lemma selectorsProcessed_append:
  "selectorsProcessed (xs @ ys) = selectorsProcessed xs @ selectorsProcessed ys"
  by (induction xs rule: selectorsProcessed.induct) auto

lemma selectorErrors_append:
  "selectorErrors (xs @ ys) = selectorErrors xs @ selectorErrors ys"
  by (induction xs rule: selectorErrors.induct) auto

lemma runErrors_append: "runErrors (xs @ ys) = runErrors xs @ runErrors ys"
  by (induction xs rule: runErrors.induct) auto

text \<open>What each step leaves untouched.\<close>

lemma makeSelectorSafe_frame:
  "makeSelectorSafe pg sel s = (res, s') \<Longrightarrow> console s' = console s \<and> saved s' = saved s"
  by (auto simp: makeSelectorSafe_def querySelector_def tick_def setAttribute_def Let_def
      split: if_splits sum.splits option.splits)

lemma makeSelectorSafe_index_frame:
  "makeSelectorSafe_index pg sel s = (res, s') \<Longrightarrow> console s' = console s \<and> saved s' = saved s"
  by (auto simp: makeSelectorSafe_index_def split: prod.splits sum.splits
      dest: makeSelectorSafe_frame)

lemma centerElement_frame:
  "centerElement pg sel s = (res, s') \<Longrightarrow> console s' = console s \<and> saved s' = saved s"
  by (auto simp: centerElement_def querySelector_def scrollPage_def tick_def Let_def
      split: sum.splits option.splits)

lemma adjustPosition_frame:
  "adjustPosition pg sel s = (res, s') \<Longrightarrow> console s' = console s \<and> saved s' = saved s"
  by (auto simp: adjustPosition_def querySelector_def scrollPage_def tick_def Let_def
      split: sum.splits option.splits)

lemma waitForTimeout_frame:
  "waitForTimeout pg ms s = (res, s') \<Longrightarrow> console s' = console s \<and> saved s' = saved s"
  by (auto simp: waitForTimeout_def tick_def split: option.splits)

lemma triggerAnimation_frame:
  assumes "triggerAnimation pg sel s = (res, s')"
  shows "console s' = console s \<and> saved s' = saved s"
  using assms unfolding triggerAnimation_def
  by (elim andThen_cases)
     (auto dest!: centerElement_frame adjustPosition_frame waitForTimeout_frame)

lemma screenshot_effect:
  "screenshot pg path s = (res, s') \<Longrightarrow>
     console s' = console s \<and> saved s' = saved s @ (case res of Inl e \<Rightarrow> [] | Inr u \<Rightarrow> [path])"
  by (auto simp: screenshot_def tick_def split: option.splits)

lemma selectorSteps_effect:
  assumes frame: "\<forall>s res s'. rewrite pg selector s = (res, s') \<longrightarrow>
                    console s' = console s \<and> saved s' = saved s"
      and run: "selectorSteps rewrite sys pg opts selector d s = (res, s')"
  shows "selectorsProcessed (console s') = selectorsProcessed (console s)
       \<and> selectorErrors (console s') = selectorErrors (console s)
       \<and> runErrors (console s') = runErrors (console s)
       \<and> saved s' = saved s @
           (case res of Inl e \<Rightarrow> []
            | Inr u \<Rightarrow> [pathJoin sys (outputDir opts) (generateFilename selector d)])"
proof -
  note obs = selectorsProcessed_append selectorErrors_append runErrors_append logMsg_def
  from run show ?thesis
    unfolding selectorSteps_def
  proof (cases rule: andThen_cases)
    case (fails e)
    with frame show ?thesis by auto
  next
    case (goes safeSelector s1)
    from frame goes(1) have f1: "console s1 = console s" "saved s1 = saved s" by blast+
    from goes(2) show ?thesis
    proof (cases rule: andThen_cases)
      case (fails e)
      with f1 show ?thesis
        by (auto simp: obs split: if_splits dest!: triggerAnimation_frame)
    next
      case (goes u s2)
      then have f2: "selectorsProcessed (console s2) = selectorsProcessed (console s)"
        "selectorErrors (console s2) = selectorErrors (console s)"
        "runErrors (console s2) = runErrors (console s)" "saved s2 = saved s"
        using f1 by (auto simp: obs split: if_splits dest!: triggerAnimation_frame)
      from goes(2) show ?thesis
      proof (cases rule: andThen_cases)
        case (fails e)
        with f2 show ?thesis
          by (auto simp: obs dest!: waitForTimeout_frame)
      next
        case (goes v s3)
        then have f3: "selectorsProcessed (console s3) = selectorsProcessed (console s)"
          "selectorErrors (console s3) = selectorErrors (console s)"
          "runErrors (console s3) = runErrors (console s)" "saved s3 = saved s"
          using f2 by (auto simp: obs dest!: waitForTimeout_frame)
        from goes(2) f3 show ?thesis
          by (auto simp: obs Let_def split: prod.splits sum.splits dest!: screenshot_effect)
      qed
    qed
  qed
qed

lemma tryCatchSelector_effect:
  assumes frame: "\<forall>s res s'. rewrite pg selector s = (res, s') \<longrightarrow>
                    console s' = console s \<and> saved s' = saved s"
      and run: "tryCatchSelector selector (selectorSteps rewrite sys pg opts selector d) s = (res, s')"
  shows "res = Inr ()
       \<and> selectorsProcessed (console s') = selectorsProcessed (console s) @ [selector]
       \<and> runErrors (console s') = runErrors (console s)
       \<and> (case fst (selectorSteps rewrite sys pg opts selector d
                      (logMsg (ProcessingSelector selector) s)) of
            Inl e \<Rightarrow> saved s' = saved s
                     \<and> selectorErrors (console s') = selectorErrors (console s) @ [(selector, e)]
          | Inr u \<Rightarrow> saved s' = saved s @ [pathJoin sys (outputDir opts) (generateFilename selector d)]
                     \<and> selectorErrors (console s') = selectorErrors (console s))"
proof -
  obtain r t where body:
    "selectorSteps rewrite sys pg opts selector d (logMsg (ProcessingSelector selector) s) = (r, t)"
    by (cases "selectorSteps rewrite sys pg opts selector d (logMsg (ProcessingSelector selector) s)")
  note eff = selectorSteps_effect [OF frame body]
  show ?thesis
  proof (cases r)
    case (Inl e)
    with run body eff show ?thesis
      by (auto simp: tryCatchSelector_def logMsg_def selectorsProcessed_append
          selectorErrors_append runErrors_append)
  next
    case (Inr u)
    with run body eff show ?thesis
      by (auto simp: tryCatchSelector_def logMsg_def selectorsProcessed_append
          selectorErrors_append runErrors_append)
  qed
qed

lemma forEach_selectors_effect:
  assumes frame: "\<forall>selector s res s'. rewrite pg selector s = (res, s') \<longrightarrow>
                    console s' = console s \<and> saved s' = saved s"
  shows "forEach (\<lambda>selector. tryCatchSelector selector
                     (selectorSteps rewrite sys pg opts selector d)) sels s = (res, s') \<Longrightarrow>
         res = Inr ()
         \<and> selectorsProcessed (console s') = selectorsProcessed (console s) @ sels
         \<and> runErrors (console s') = runErrors (console s)
         \<and> length (saved s') + length (selectorErrors (console s'))
             = length (saved s) + length (selectorErrors (console s)) + length sels"
proof (induction sels arbitrary: s)
  case Nil
  then show ?case by simp
next
  case (Cons x xs)
  obtain r t where step:
    "tryCatchSelector x (selectorSteps rewrite sys pg opts x d) s = (r, t)"
    by (cases "tryCatchSelector x (selectorSteps rewrite sys pg opts x d) s")
  have fx: "\<forall>s res s'. rewrite pg x s = (res, s') \<longrightarrow>
               console s' = console s \<and> saved s' = saved s"
    using frame by blast
  note eff = tryCatchSelector_effect [OF fx step]
  from eff have r: "r = Inr ()" by simp
  with Cons.prems step
  have rest: "forEach (\<lambda>selector. tryCatchSelector selector
                 (selectorSteps rewrite sys pg opts selector d)) xs t = (res, s')"
    by simp
  from eff have len: "length (saved t) + length (selectorErrors (console t))
      = length (saved s) + length (selectorErrors (console s)) + 1"
    by (auto split: sum.splits)
  from Cons.IH [OF rest] eff len show ?case by simp
qed

text \<open>When a step fails, and when it cannot.\<close>

lemma andThen_fails: "fst (m s) = Inl e \<Longrightarrow> fst (andThen m f s) = Inl e"
  by (cases "m s") (auto simp: andThen_def)

lemma andThen_succeeds:
  assumes "\<forall>s. \<not> isl (fst (m s))" and "\<forall>x s. \<not> isl (fst (f x s))"
  shows "\<not> isl (fst (andThen m f s))"
proof (cases "m s")
  case (Pair r t)
  from assms(1) have "\<not> isl (fst (m s))" by blast
  with Pair obtain x where "r = Inr x" by (cases r) auto
  with Pair assms(2) show ?thesis by (simp add: andThen_def)
qed

lemma makeSelectorSafe_missing:
  "\<not> startsWith sel ''[data-screenshot'' \<Longrightarrow> querySelectorIn pg (attr s) sel = Inr None \<Longrightarrow>
   fst (makeSelectorSafe pg sel s) = Inl (ElementNotFound sel)"
  by (simp add: makeSelectorSafe_def querySelector_def)

lemma makeSelectorSafe_index_missing:
  "\<not> startsWith sel ''[data-screenshot'' \<Longrightarrow> querySelectorIn pg (attr s) sel = Inr None \<Longrightarrow>
   fst (makeSelectorSafe_index pg sel s) = Inl (FailedToProcess sel (ElementNotFound sel))"
  by (simp add: makeSelectorSafe_index_def makeSelectorSafe_def querySelector_def)

lemma makeSelectorSafe_found:
  "\<forall>a. \<exists>el. querySelectorIn pg a sel = Inr (Some el) \<Longrightarrow> \<not> isl (fst (makeSelectorSafe pg sel s))"
proof -
  assume "\<forall>a. \<exists>el. querySelectorIn pg a sel = Inr (Some el)"
  then obtain el where "querySelectorIn pg (attr s) sel = Inr (Some el)" by blast
  then show ?thesis
    by (simp add: makeSelectorSafe_def querySelector_def Let_def)
qed

lemma makeSelectorSafe_index_found:
  "\<forall>a. \<exists>el. querySelectorIn pg a sel = Inr (Some el) \<Longrightarrow>
   \<not> isl (fst (makeSelectorSafe_index pg sel s))"
  using makeSelectorSafe_found [of pg sel s]
  by (cases "makeSelectorSafe pg sel s") (auto simp: makeSelectorSafe_index_def split: sum.splits)

lemma centerElement_ok:
  "\<forall>a sel. \<not> isl (querySelectorIn pg a sel) \<Longrightarrow> \<not> isl (fst (centerElement pg x s))"
proof -
  assume "\<forall>a sel. \<not> isl (querySelectorIn pg a sel)"
  then have "\<not> isl (querySelectorIn pg (attr s) x)" by blast
  then show ?thesis
    by (cases "querySelectorIn pg (attr s) x")
       (auto simp: centerElement_def querySelector_def Let_def split: option.splits)
qed

lemma adjustPosition_ok:
  "\<forall>a sel. \<not> isl (querySelectorIn pg a sel) \<Longrightarrow> \<not> isl (fst (adjustPosition pg x s))"
proof -
  assume "\<forall>a sel. \<not> isl (querySelectorIn pg a sel)"
  then have "\<not> isl (querySelectorIn pg (attr s) x)" by blast
  then show ?thesis
    by (cases "querySelectorIn pg (attr s) x")
       (auto simp: adjustPosition_def querySelector_def Let_def split: option.splits)
qed

lemma waitForTimeout_ok:
  "\<forall>t ms. timeoutError pg t ms = None \<Longrightarrow> \<not> isl (fst (waitForTimeout pg n s))"
  by (simp add: waitForTimeout_def)

lemma screenshot_ok:
  "\<forall>t p. screenshotError pg t p = None \<Longrightarrow> \<not> isl (fst (screenshot pg path s))"
  by (simp add: screenshot_def)

lemma triggerAnimation_ok:
  assumes "\<forall>a sel. \<not> isl (querySelectorIn pg a sel)" and "\<forall>t ms. timeoutError pg t ms = None"
  shows "\<not> isl (fst (triggerAnimation pg x s))"
  unfolding triggerAnimation_def
  by (intro andThen_succeeds allI centerElement_ok adjustPosition_ok waitForTimeout_ok assms)

lemma selectorSteps_ok:
  assumes rw: "\<forall>s. \<not> isl (fst (rewrite pg selector s))"
      and q: "\<forall>a sel. \<not> isl (querySelectorIn pg a sel)"
      and w: "\<forall>t ms. timeoutError pg t ms = None"
      and c: "\<forall>t p. screenshotError pg t p = None"
  shows "\<not> isl (fst (selectorSteps rewrite sys pg opts selector d s))"
proof -
  have shot: "\<not> isl (fst (case screenshot pg p t of
                 (Inl e, s1) \<Rightarrow> (Inl e, s1)
               | (Inr u, s1) \<Rightarrow> (Inr (), logMsg (ScreenshotSaved p) s1)))" for p t
    using screenshot_ok [OF c, of p t]
    by (cases "screenshot pg p t") (auto split: sum.splits)
  show ?thesis
    unfolding selectorSteps_def Let_def
    by (intro andThen_succeeds allI rw shot)
       (auto simp: triggerAnimation_ok [OF q w] waitForTimeout_ok [OF w])
qed

lemma selectorSteps_fails:
  "fst (rewrite pg selector s) = Inl e \<Longrightarrow>
   fst (selectorSteps rewrite sys pg opts selector d s) = Inl e"
  by (simp add: selectorSteps_def andThen_fails)

lemma present_filename: "generateFilename ''.present'' d = ''present__'' @ deviceName d @ ''.png''"
  by (simp add: generateFilename_def cleanSelector_def trimOneUnderscore_def isAsciiAlnum_def
      toLowerChar_def)

text \<open>The selectors \<^verbatim>\<open>.missing\<close> and \<^verbatim>\<open>.present\<close>, through one pass and through a run.\<close>

lemma scenario_loop:
  assumes frame: "\<forall>selector s res s'. rewrite pg selector s = (res, s') \<longrightarrow>
                    console s' = console s \<and> saved s' = saved s"
      and miss: "\<forall>s. fst (rewrite pg ''.missing'' s) = Inl em"
      and pres: "\<forall>s. \<not> isl (fst (rewrite pg ''.present'' s))"
      and q: "\<forall>a sel. \<not> isl (querySelectorIn pg a sel)"
      and w: "\<forall>t ms. timeoutError pg t ms = None"
      and c: "\<forall>t p. screenshotError pg t p = None"
      and run: "forEach (\<lambda>selector. tryCatchSelector selector
                   (selectorSteps rewrite sys pg opts selector d)) [''.missing'', ''.present''] s
                = (res, s')"
  shows "res = Inr ()
       \<and> saved s' = saved s @ [pathJoin sys (outputDir opts) (''present__'' @ deviceName d @ ''.png'')]
       \<and> selectorErrors (console s') = selectorErrors (console s) @ [(''.missing'', em)]
       \<and> runErrors (console s') = runErrors (console s)"
proof -
  obtain r1 s1 where step1:
    "tryCatchSelector ''.missing'' (selectorSteps rewrite sys pg opts ''.missing'' d) s = (r1, s1)"
    by (cases "tryCatchSelector ''.missing'' (selectorSteps rewrite sys pg opts ''.missing'' d) s")
  obtain r2 s2 where step2:
    "tryCatchSelector ''.present'' (selectorSteps rewrite sys pg opts ''.present'' d) s1 = (r2, s2)"
    by (cases "tryCatchSelector ''.present'' (selectorSteps rewrite sys pg opts ''.present'' d) s1")
  have f1: "\<forall>s res s'. rewrite pg ''.missing'' s = (res, s') \<longrightarrow>
               console s' = console s \<and> saved s' = saved s"
    using frame by blast
  have f2: "\<forall>s res s'. rewrite pg ''.present'' s = (res, s') \<longrightarrow>
               console s' = console s \<and> saved s' = saved s"
    using frame by blast
  have b1: "fst (selectorSteps rewrite sys pg opts ''.missing'' d
                  (logMsg (ProcessingSelector ''.missing'') s)) = Inl em"
    using miss by (simp add: selectorSteps_fails)
  have "\<not> isl (fst (selectorSteps rewrite sys pg opts ''.present'' d
                  (logMsg (ProcessingSelector ''.present'') s1)))"
    using pres q w c by (rule selectorSteps_ok)
  then obtain u where b2: "fst (selectorSteps rewrite sys pg opts ''.present'' d
                  (logMsg (ProcessingSelector ''.present'') s1)) = Inr u"
    by (cases "fst (selectorSteps rewrite sys pg opts ''.present'' d
                  (logMsg (ProcessingSelector ''.present'') s1))") auto
  note e1 = tryCatchSelector_effect [OF f1 step1]
  note e2 = tryCatchSelector_effect [OF f2 step2]
  from e1 b1 have a1: "r1 = Inr ()" "saved s1 = saved s"
    "selectorErrors (console s1) = selectorErrors (console s) @ [(''.missing'', em)]"
    "runErrors (console s1) = runErrors (console s)"
    by simp_all
  from e2 b2 have a2: "r2 = Inr ()"
    "saved s2 = saved s1 @ [pathJoin sys (outputDir opts) (generateFilename ''.present'' d)]"
    "selectorErrors (console s2) = selectorErrors (console s1)"
    "runErrors (console s2) = runErrors (console s1)"
    by simp_all
  from run step1 step2 a1(1) a2(1) have "res = Inr ()" "s' = s2" by simp_all
  with a1 a2 show ?thesis by (simp add: present_filename)
qed

lemma not_synthetic: "\<not> startsWith ''.missing'' ''[data-screenshot''"
  by (simp add: startsWith_def)

lemma processDevice_scenario:
  assumes ctx: "newContextError sys d = None" and goto: "gotoPage sys d = Inr pg"
      and dir: "ensureDirError sys (outputDir opts) = None"
      and cfg: "config opts = None" and sels: "selectors opts = Some [''.missing'', ''.present'']"
      and par: "parentSelector opts = None"
      and miss: "\<forall>a. querySelectorIn pg a ''.missing'' = Inr None"
      and pres: "\<forall>a. \<exists>el. querySelectorIn pg a ''.present'' = Inr (Some el)"
      and q: "\<forall>a sel. \<not> isl (querySelectorIn pg a sel)"
      and w: "\<forall>t ms. timeoutError pg t ms = None"
      and c: "\<forall>t p. screenshotError pg t p = None"
      and run: "processDevice sys opts d s = (res, s')"
  shows "res = Inr ()
       \<and> saved s' = saved s @ [pathJoin sys (outputDir opts) (''present__'' @ deviceName d @ ''.png'')]
       \<and> selectorErrors (console s') =
           selectorErrors (console s) @ [(''.missing'', ElementNotFound ''.missing'')]
       \<and> runErrors (console s') = runErrors (console s)"
proof -
  let ?s3 = "logMsg PageLoaded
     ((logMsg (Navigating (url opts) (navigationTimeout opts)) (logMsg (ProcessingDevice d) s))
        \<lparr>attr := initialAttr pg, pageYOffset := initialYOffset pg\<rparr>)"
  have loop: "forEach (\<lambda>selector. tryCatchSelector selector
                 (selectorSteps makeSelectorSafe sys pg opts selector d))
               [''.missing'', ''.present''] ?s3 = (res, s')"
    using run ctx goto dir cfg sels par
    by (simp add: processDevice_def andThen_def openPage_def getSelectors_def
        loadSelectorsFromConfig_def ensureOutputDirectory_def truthy_def orEmpty_def
        processSelector_def Let_def)
  have frame: "\<forall>selector s res s'. makeSelectorSafe pg selector s = (res, s') \<longrightarrow>
                 console s' = console s \<and> saved s' = saved s"
    using makeSelectorSafe_frame by blast
  have m: "\<forall>s. fst (makeSelectorSafe pg ''.missing'' s) = Inl (ElementNotFound ''.missing'')"
    using miss by (simp add: makeSelectorSafe_missing not_synthetic)
  have p: "\<forall>s. \<not> isl (fst (makeSelectorSafe pg ''.present'' s))"
    using pres by (simp add: makeSelectorSafe_found)
  from scenario_loop [OF frame m p q w c loop] show ?thesis
    by (simp add: logMsg_def selectorErrors_append runErrors_append)
qed

lemma devicePass_index_scenario:
  assumes ctx: "newContextError sys d = None" and goto: "gotoPage sys d = Inr pg"
      and dir: "ensureDirError sys (outputDir opts) = None"
      and par: "parentSelector opts = None"
      and miss: "\<forall>a. querySelectorIn pg a ''.missing'' = Inr None"
      and pres: "\<forall>a. \<exists>el. querySelectorIn pg a ''.present'' = Inr (Some el)"
      and q: "\<forall>a sel. \<not> isl (querySelectorIn pg a sel)"
      and w: "\<forall>t ms. timeoutError pg t ms = None"
      and c: "\<forall>t p. screenshotError pg t p = None"
      and run: "devicePass_index sys opts d [''.missing'', ''.present''] s = (res, s')"
  shows "res = Inr [''.missing'', ''.present'']
       \<and> saved s' = saved s @ [pathJoin sys (outputDir opts) (''present__'' @ deviceName d @ ''.png'')]
       \<and> selectorErrors (console s') =
           selectorErrors (console s)
             @ [(''.missing'', FailedToProcess ''.missing'' (ElementNotFound ''.missing''))]
       \<and> runErrors (console s') = runErrors (console s)"
proof -
  let ?s3 = "logMsg PageLoaded
     ((logMsg (Navigating (url opts) (navigationTimeout opts)) (logMsg (ProcessingDevice d) s))
        \<lparr>attr := initialAttr pg, pageYOffset := initialYOffset pg\<rparr>)"
  obtain r t where loop: "forEach (\<lambda>selector. tryCatchSelector selector
                 (selectorSteps makeSelectorSafe_index sys pg opts selector d))
               [''.missing'', ''.present''] ?s3 = (r, t)"
    by (cases "forEach (\<lambda>selector. tryCatchSelector selector
                 (selectorSteps makeSelectorSafe_index sys pg opts selector d))
               [''.missing'', ''.present''] ?s3")
  have frame: "\<forall>selector s res s'. makeSelectorSafe_index pg selector s = (res, s') \<longrightarrow>
                 console s' = console s \<and> saved s' = saved s"
    using makeSelectorSafe_index_frame by blast
  have m: "\<forall>s. fst (makeSelectorSafe_index pg ''.missing'' s)
             = Inl (FailedToProcess ''.missing'' (ElementNotFound ''.missing''))"
    using miss by (simp add: makeSelectorSafe_index_missing not_synthetic)
  have p: "\<forall>s. \<not> isl (fst (makeSelectorSafe_index pg ''.present'' s))"
    using pres by (simp add: makeSelectorSafe_index_found)
  note eff = scenario_loop [OF frame m p q w c loop]
  from eff have r: "r = Inr ()" by simp
  have "devicePass_index sys opts d [''.missing'', ''.present''] s
          = (Inr [''.missing'', ''.present''], t)"
    using ctx goto dir par loop r
    by (simp add: devicePass_index_def andThen_def openPage_def resolveSelectors_index_def
        ensureOutputDirectory_def processSelector_index_def Let_def)
  with run have "res = Inr [''.missing'', ''.present'']" "s' = t" by simp_all
  with eff show ?thesis
    by (simp add: logMsg_def selectorErrors_append runErrors_append)
qed

lemma passes_scenario:
  assumes sys: "\<forall>d. newContextError sys d = None \<and> gotoPage sys d = Inr (pages d)"
      and dir: "ensureDirError sys (outputDir opts) = None"
      and cfg: "config opts = None" and sels: "selectors opts = Some [''.missing'', ''.present'']"
      and par: "parentSelector opts = None"
      and miss: "\<forall>d a. querySelectorIn (pages d) a ''.missing'' = Inr None"
      and pres: "\<forall>d a. \<exists>el. querySelectorIn (pages d) a ''.present'' = Inr (Some el)"
      and q: "\<forall>d a sel. \<not> isl (querySelectorIn (pages d) a sel)"
      and w: "\<forall>d t ms. timeoutError (pages d) t ms = None"
      and c: "\<forall>d t p. screenshotError (pages d) t p = None"
  shows "forEach (processDevice sys opts) ds s = (res, s') \<Longrightarrow>
         res = Inr ()
         \<and> saved s' = saved s
             @ map (\<lambda>d. pathJoin sys (outputDir opts) (''present__'' @ deviceName d @ ''.png'')) ds
         \<and> selectorErrors (console s') = selectorErrors (console s)
             @ map (\<lambda>d. (''.missing'', ElementNotFound ''.missing'')) ds
         \<and> runErrors (console s') = runErrors (console s)"
proof (induction ds arbitrary: s)
  case Nil
  then show ?case by simp
next
  case (Cons d ds)
  obtain r t where pass: "processDevice sys opts d s = (r, t)"
    by (cases "processDevice sys opts d s")
  have eff: "r = Inr ()
       \<and> saved t = saved s @ [pathJoin sys (outputDir opts) (''present__'' @ deviceName d @ ''.png'')]
       \<and> selectorErrors (console t) =
           selectorErrors (console s) @ [(''.missing'', ElementNotFound ''.missing'')]
       \<and> runErrors (console t) = runErrors (console s)"
    using sys miss pres q w c
    by (intro processDevice_scenario [where pg = "pages d", OF _ _ dir cfg sels par _ _ _ _ _ pass])
       auto
  with Cons.prems pass have rest: "forEach (processDevice sys opts) ds t = (res, s')" by simp
  from Cons.IH [OF rest] eff show ?case by simp
qed

lemma passes_index_scenario:
  assumes sys: "\<forall>d. newContextError sys d = None \<and> gotoPage sys d = Inr (pages d)"
      and dir: "ensureDirError sys (outputDir opts) = None"
      and par: "parentSelector opts = None"
      and miss: "\<forall>d a. querySelectorIn (pages d) a ''.missing'' = Inr None"
      and pres: "\<forall>d a. \<exists>el. querySelectorIn (pages d) a ''.present'' = Inr (Some el)"
      and q: "\<forall>d a sel. \<not> isl (querySelectorIn (pages d) a sel)"
      and w: "\<forall>d t ms. timeoutError (pages d) t ms = None"
      and c: "\<forall>d t p. screenshotError (pages d) t p = None"
  shows "devicePasses_index sys opts ds [''.missing'', ''.present''] s = (res, s') \<Longrightarrow>
         \<not> isl res
         \<and> saved s' = saved s
             @ map (\<lambda>d. pathJoin sys (outputDir opts) (''present__'' @ deviceName d @ ''.png'')) ds
         \<and> selectorErrors (console s') = selectorErrors (console s)
             @ map (\<lambda>d. (''.missing'', FailedToProcess ''.missing'' (ElementNotFound ''.missing''))) ds
         \<and> runErrors (console s') = runErrors (console s)"
proof (induction ds arbitrary: s)
  case Nil
  then show ?case by auto
next
  case (Cons d ds)
  obtain r t where pass: "devicePass_index sys opts d [''.missing'', ''.present''] s = (r, t)"
    by (cases "devicePass_index sys opts d [''.missing'', ''.present''] s")
  have eff: "r = Inr [''.missing'', ''.present'']
       \<and> saved t = saved s @ [pathJoin sys (outputDir opts) (''present__'' @ deviceName d @ ''.png'')]
       \<and> selectorErrors (console t) =
           selectorErrors (console s)
             @ [(''.missing'', FailedToProcess ''.missing'' (ElementNotFound ''.missing''))]
       \<and> runErrors (console t) = runErrors (console s)"
    using sys miss pres q w c
    by (intro devicePass_index_scenario [where pg = "pages d", OF _ _ dir par _ _ _ _ _ pass])
       auto
  with Cons.prems pass
  have rest: "devicePasses_index sys opts ds [''.missing'', ''.present''] t = (res, s')" by simp
  from Cons.IH [OF rest] eff show ?case by simp
qed

lemma run_scenario:
  assumes sys: "\<forall>d. newContextError sys d = None \<and> gotoPage sys d = Inr (pages d)"
      and dir: "ensureDirError sys (outputDir opts) = None"
      and cfg: "config opts = None" and sels: "selectors opts = Some [''.missing'', ''.present'']"
      and par: "parentSelector opts = None"
      and miss: "\<forall>d a. querySelectorIn (pages d) a ''.missing'' = Inr None"
      and pres: "\<forall>d a. \<exists>el. querySelectorIn (pages d) a ''.present'' = Inr (Some el)"
      and q: "\<forall>d a sel. \<not> isl (querySelectorIn (pages d) a sel)"
      and w: "\<forall>d t ms. timeoutError (pages d) t ms = None"
      and c: "\<forall>d t p. screenshotError (pages d) t p = None"
  shows "saved (start sys opts s) = saved s
           @ map (\<lambda>d. pathJoin sys (outputDir opts) (''present__'' @ deviceName d @ ''.png''))
               (getDeviceTypes opts)
       \<and> selectorErrors (console (start sys opts s)) = selectorErrors (console s)
           @ map (\<lambda>d. (''.missing'', ElementNotFound ''.missing'')) (getDeviceTypes opts)
       \<and> runErrors (console (start sys opts s)) = runErrors (console s)
       \<and> saved (captureScreenshots sys opts s) = saved s
           @ map (\<lambda>d. pathJoin sys (outputDir opts) (''present__'' @ deviceName d @ ''.png''))
               (getDeviceTypes opts)
       \<and> selectorErrors (console (captureScreenshots sys opts s)) = selectorErrors (console s)
           @ map (\<lambda>d. (''.missing'', FailedToProcess ''.missing'' (ElementNotFound ''.missing'')))
               (getDeviceTypes opts)
       \<and> runErrors (console (captureScreenshots sys opts s)) = runErrors (console s)"
proof -
  obtain r t where a: "forEach (processDevice sys opts) (getDeviceTypes opts)
                         (s\<lparr>browserOpen := True\<rparr>) = (r, t)"
    by (cases "forEach (processDevice sys opts) (getDeviceTypes opts) (s\<lparr>browserOpen := True\<rparr>)")
  note ea = passes_scenario [OF sys dir cfg sels par miss pres q w c a]
  obtain r' t' where b: "devicePasses_index sys opts (getDeviceTypes opts)
                           [''.missing'', ''.present''] (s\<lparr>browserOpen := True\<rparr>) = (r', t')"
    by (cases "devicePasses_index sys opts (getDeviceTypes opts)
                           [''.missing'', ''.present''] (s\<lparr>browserOpen := True\<rparr>)")
  note eb = passes_index_scenario [OF sys dir par miss pres q w c b]
  from eb obtain v where r': "r' = Inr v" by (cases r') auto
  have l: "getSelectors_index sys opts (s\<lparr>browserOpen := True\<rparr>)
             = ([''.missing'', ''.present''], s\<lparr>browserOpen := True\<rparr>)"
    using cfg sels by (simp add: getSelectors_index_def loadSelectorsFromConfig_def orEmpty_def)
  have "start sys opts s = t\<lparr>browserOpen := False\<rparr>"
    using a ea by (simp add: start_def)
  moreover have "captureScreenshots sys opts s = t'\<lparr>browserOpen := False\<rparr>"
    using b r' l by (simp add: captureScreenshots_def)
  ultimately show ?thesis using ea eb by simp
qed

lemma processSelector_returns:
  "fst (processSelector sys pg opts selector d s) = Inr ()
   \<and> fst (processSelector_index sys pg opts selector d s) = Inr ()"
  by (auto simp: processSelector_def processSelector_index_def tryCatchSelector_def
      split: prod.splits sum.splits)

lemma processSelector_logs_error:
  "selectorSteps makeSelectorSafe sys pg opts selector d (logMsg (ProcessingSelector selector) s)
     = (Inl e, t) \<Longrightarrow>
   processSelector sys pg opts selector d s = (Inr (), logMsg (ErrorProcessingSelector selector e) t)"
  by (simp add: processSelector_def tryCatchSelector_def)

lemma processSelector_index_logs_error:
  "selectorSteps makeSelectorSafe_index sys pg opts selector d
     (logMsg (ProcessingSelector selector) s) = (Inl e, t) \<Longrightarrow>
   processSelector_index sys pg opts selector d s
     = (Inr (), logMsg (ErrorProcessingSelector selector e) t)"
  by (simp add: processSelector_index_def tryCatchSelector_def)

lemma loop_isolated:
  "fst (forEach (\<lambda>sel. processSelector sys pg opts sel d) sels s) = Inr ()
   \<and> selectorsProcessed (console (snd (forEach (\<lambda>sel. processSelector sys pg opts sel d) sels s)))
       = selectorsProcessed (console s) @ sels
   \<and> length (saved (snd (forEach (\<lambda>sel. processSelector sys pg opts sel d) sels s)))
       + length (selectorErrors (console (snd (forEach (\<lambda>sel. processSelector sys pg opts sel d) sels s))))
       = length (saved s) + length (selectorErrors (console s)) + length sels"
proof -
  obtain r t where a: "forEach (\<lambda>sel. tryCatchSelector sel
       (selectorSteps makeSelectorSafe sys pg opts sel d)) sels s = (r, t)"
    by (cases "forEach (\<lambda>sel. tryCatchSelector sel
       (selectorSteps makeSelectorSafe sys pg opts sel d)) sels s")
  have frame: "\<forall>selector s res s'. makeSelectorSafe pg selector s = (res, s') \<longrightarrow>
                 console s' = console s \<and> saved s' = saved s"
    using makeSelectorSafe_frame by blast
  from forEach_selectors_effect [OF frame a] a show ?thesis
    by (simp add: processSelector_def)
qed

lemma loop_index_isolated:
  "fst (forEach (\<lambda>sel. processSelector_index sys pg opts sel d) sels s) = Inr ()
   \<and> selectorsProcessed (console (snd (forEach (\<lambda>sel. processSelector_index sys pg opts sel d) sels s)))
       = selectorsProcessed (console s) @ sels
   \<and> length (saved (snd (forEach (\<lambda>sel. processSelector_index sys pg opts sel d) sels s)))
       + length (selectorErrors (console (snd (forEach (\<lambda>sel. processSelector_index sys pg opts sel d) sels s))))
       = length (saved s) + length (selectorErrors (console s)) + length sels"
proof -
  obtain r t where a: "forEach (\<lambda>sel. tryCatchSelector sel
       (selectorSteps makeSelectorSafe_index sys pg opts sel d)) sels s = (r, t)"
    by (cases "forEach (\<lambda>sel. tryCatchSelector sel
       (selectorSteps makeSelectorSafe_index sys pg opts sel d)) sels s")
  have frame: "\<forall>selector s res s'. makeSelectorSafe_index pg selector s = (res, s') \<longrightarrow>
                 console s' = console s \<and> saved s' = saved s"
    using makeSelectorSafe_index_frame by blast
  from forEach_selectors_effect [OF frame a] a show ?thesis
    by (simp add: processSelector_index_def)
qed

lemma processDevice_after_setup:
  assumes "openPage sys opts d (logMsg (ProcessingDevice d) s) = (Inr pg, s1)"
      and "getSelectors sys pg opts s1 = (Inr sels, s2)"
      and "ensureDirError sys (outputDir opts) = None"
  shows "fst (processDevice sys opts d s) = Inr ()"
  using assms loop_isolated [of sys pg opts d sels s2]
  by (simp add: processDevice_def andThen_def ensureOutputDirectory_def)

lemma devicePass_index_after_setup:
  assumes "openPage sys opts d (logMsg (ProcessingDevice d) s) = (Inr pg, s1)"
      and "resolveSelectors_index pg opts sels0 s1 = (Inr sels, s2)"
      and "ensureDirError sys (outputDir opts) = None"
  shows "fst (devicePass_index sys opts d sels0 s) = Inr sels"
proof -
  obtain r t where l: "forEach (\<lambda>sel. processSelector_index sys pg opts sel d) sels s2 = (r, t)"
    by (cases "forEach (\<lambda>sel. processSelector_index sys pg opts sel d) sels s2")
  with loop_index_isolated [of sys pg opts d sels s2] have "r = Inr ()" by simp
  with assms l show ?thesis
    by (simp add: devicePass_index_def andThen_def ensureOutputDirectory_def)
qed

text \<open>
  Claim C2, as the code has it. Processing a selector never throws, in either file: an
  error raised by the rewriter, the animation, the wait or the capture is caught and
  written to the console with the selector. So the loop over the selectors of a device
  pass never stops early: every selector is begun, in order, and each ends either in a
  file saved or in an error logged. For the selectors \<^verbatim>\<open>.missing\<close> and \<^verbatim>\<open>.present\<close>, on
  pages where only the second matches and no external call fails, the run ends without a
  run-level error and each device pass saves exactly one file, for \<^verbatim>\<open>.present\<close>, and
  logs exactly one element-not-found error, for \<^verbatim>\<open>.missing\<close>: one of each for a single
  device, two of each for the device option \<^verbatim>\<open>both\<close>.
\<close>

theorem selector_failures_are_isolated:
  "fst (processSelector sys pg opts selector d s) = Inr ()
   \<and> fst (processSelector_index sys pg opts selector d s) = Inr ()
   \<and> (selectorSteps makeSelectorSafe sys pg opts selector d (logMsg (ProcessingSelector selector) s)
         = (Inl e, t) \<longrightarrow>
       processSelector sys pg opts selector d s
         = (Inr (), logMsg (ErrorProcessingSelector selector e) t))
   \<and> (selectorSteps makeSelectorSafe_index sys pg opts selector d
         (logMsg (ProcessingSelector selector) s) = (Inl e, t) \<longrightarrow>
       processSelector_index sys pg opts selector d s
         = (Inr (), logMsg (ErrorProcessingSelector selector e) t))
   \<and> fst (forEach (\<lambda>sel. processSelector sys pg opts sel d) sels s) = Inr ()
   \<and> selectorsProcessed (console (snd (forEach (\<lambda>sel. processSelector sys pg opts sel d) sels s)))
       = selectorsProcessed (console s) @ sels
   \<and> length (saved (snd (forEach (\<lambda>sel. processSelector sys pg opts sel d) sels s)))
       + length (selectorErrors (console (snd (forEach (\<lambda>sel. processSelector sys pg opts sel d) sels s))))
       = length (saved s) + length (selectorErrors (console s)) + length sels
   \<and> fst (forEach (\<lambda>sel. processSelector_index sys pg opts sel d) sels s) = Inr ()
   \<and> selectorsProcessed (console (snd (forEach (\<lambda>sel. processSelector_index sys pg opts sel d) sels s)))
       = selectorsProcessed (console s) @ sels
   \<and> length (saved (snd (forEach (\<lambda>sel. processSelector_index sys pg opts sel d) sels s)))
       + length (selectorErrors (console (snd (forEach (\<lambda>sel. processSelector_index sys pg opts sel d) sels s))))
       = length (saved s) + length (selectorErrors (console s)) + length sels
   \<and> (openPage sys opts d (logMsg (ProcessingDevice d) s) = (Inr pg, s1)
        \<and> getSelectors sys pg opts s1 = (Inr sels, s2)
        \<and> ensureDirError sys (outputDir opts) = None
       \<longrightarrow> fst (processDevice sys opts d s) = Inr ())
   \<and> (openPage sys opts d (logMsg (ProcessingDevice d) s) = (Inr pg, s1)
        \<and> resolveSelectors_index pg opts sels0 s1 = (Inr sels, s2)
        \<and> ensureDirError sys (outputDir opts) = None
       \<longrightarrow> fst (devicePass_index sys opts d sels0 s) = Inr sels)
   \<and> ((\<forall>d. newContextError sys d = None \<and> gotoPage sys d = Inr (pages d))
        \<and> ensureDirError sys (outputDir opts) = None
        \<and> config opts = None \<and> selectors opts = Some [''.missing'', ''.present'']
        \<and> parentSelector opts = None
        \<and> (\<forall>d a. querySelectorIn (pages d) a ''.missing'' = Inr None)
        \<and> (\<forall>d a. \<exists>el. querySelectorIn (pages d) a ''.present'' = Inr (Some el))
        \<and> (\<forall>d a sel. \<not> isl (querySelectorIn (pages d) a sel))
        \<and> (\<forall>d t ms. timeoutError (pages d) t ms = None)
        \<and> (\<forall>d t p. screenshotError (pages d) t p = None)
       \<longrightarrow>
        saved (start sys opts s) = saved s
           @ map (\<lambda>d. pathJoin sys (outputDir opts) (''present__'' @ deviceName d @ ''.png''))
               (getDeviceTypes opts)
        \<and> selectorErrors (console (start sys opts s)) = selectorErrors (console s)
           @ map (\<lambda>d. (''.missing'', ElementNotFound ''.missing'')) (getDeviceTypes opts)
        \<and> runErrors (console (start sys opts s)) = runErrors (console s)
        \<and> saved (captureScreenshots sys opts s) = saved s
           @ map (\<lambda>d. pathJoin sys (outputDir opts) (''present__'' @ deviceName d @ ''.png''))
               (getDeviceTypes opts)
        \<and> selectorErrors (console (captureScreenshots sys opts s)) = selectorErrors (console s)
           @ map (\<lambda>d. (''.missing'', FailedToProcess ''.missing'' (ElementNotFound ''.missing'')))
               (getDeviceTypes opts)
        \<and> runErrors (console (captureScreenshots sys opts s)) = runErrors (console s))"
proof -
  note a = processSelector_returns [of sys pg opts selector d s]
  note b = processSelector_logs_error [of sys pg opts selector d s e t]
  note c = processSelector_index_logs_error [of sys pg opts selector d s e t]
  note l1 = loop_isolated [of sys pg opts d sels s]
  note l2 = loop_index_isolated [of sys pg opts d sels s]
  note p1 = processDevice_after_setup [of sys opts d s pg s1 sels s2]
  note p2 = devicePass_index_after_setup [of sys opts d s pg s1 sels0 sels s2]
  note r = run_scenario [of sys pages opts s]
  show ?thesis
    apply (intro conjI)
    using a b c l1 l2 apply simp_all[10]
    using p1 apply blast
    using p2 apply blast
    apply (intro impI, elim conjE, rule r; assumption)
    done
qed

theorem selector_failures_are_isolated_witness:
  "fst (processSelector (demoSystem (\<lambda>d. presentPage)) presentPage
         (demoOptions [''.missing'', ''.present''] None (Single Desktop) False)
         ''.missing'' Desktop blankState) = Inr ()
   \<and> saved (start (demoSystem (\<lambda>d. presentPage))
            (demoOptions [''.missing'', ''.present''] None (Single Desktop) False) blankState)
     = [''shots/present__desktop.png'']
   \<and> selectorErrors (console (start (demoSystem (\<lambda>d. presentPage))
            (demoOptions [''.missing'', ''.present''] None (Single Desktop) False) blankState))
     = [(''.missing'', ElementNotFound ''.missing'')]
   \<and> runErrors (console (start (demoSystem (\<lambda>d. presentPage))
            (demoOptions [''.missing'', ''.present''] None (Single Desktop) False) blankState)) = []"
  using selector_failures_are_isolated [where sys = "demoSystem (\<lambda>d. presentPage)"
      and pg = presentPage
      and opts = "demoOptions [''.missing'', ''.present''] None (Single Desktop) False"
      and selector = "''.missing''" and d = Desktop and s = blankState
      and sels = "[''.missing'', ''.present'']" and pages = "\<lambda>d. presentPage"]
  by (simp add: presentPage_facts demoSystem_facts demoOptions_facts blankState_facts)

text \<open>
  Claim C2 as stated fails for the device option \<^verbatim>\<open>both\<close>, the default of the command
  line: the run saves two files and logs two element-not-found errors.
\<close>

theorem both_devices_two_files_counterexample:
  "saved (start (demoSystem (\<lambda>d. presentPage))
            (demoOptions [''.missing'', ''.present''] None Both False) blankState)
     = [''shots/present__desktop.png'', ''shots/present__mobile.png'']
   \<and> selectorErrors (console (start (demoSystem (\<lambda>d. presentPage))
            (demoOptions [''.missing'', ''.present''] None Both False) blankState))
     = [(''.missing'', ElementNotFound ''.missing''), (''.missing'', ElementNotFound ''.missing'')]
   \<and> saved (captureScreenshots (demoSystem (\<lambda>d. presentPage))
            (demoOptions [''.missing'', ''.present''] None Both False) blankState)
     = [''shots/present__desktop.png'', ''shots/present__mobile.png'']"
  using run_scenario [of "demoSystem (\<lambda>d. presentPage)" "\<lambda>d. presentPage"
      "demoOptions [''.missing'', ''.present''] None Both False" blankState]
  by (simp add: presentPage_facts demoSystem_facts demoOptions_facts blankState_facts)

section \<open>Device passes\<close>

text \<open>
  In the class-based file every device pass reads the base list again, and what it reads
  depends on the options and the file system only.
\<close>

lemma loadSelectors_base_fixed:
  "fst (loadSelectorsFromConfig sys opts s) = fst (loadSelectorsFromConfig sys opts t)"
  by (simp add: loadSelectorsFromConfig_def split: option.splits sum.splits json_config.splits)

text \<open>
  Claim C4 fails in \<^verbatim>\<open>index.ts\<close>. The variable \<^verbatim>\<open>selectors\<close> is declared before the
  device loop and assigned inside it, so the list a pass builds is the base list of the
  next pass. With the parent selector \<^verbatim>\<open>#list\<close>, no other selector and the device option
  \<^verbatim>\<open>both\<close>, on a page whose list has two children on the desktop and one on the mobile
  layout, the desktop pass leaves two synthetic locators in the variable. The mobile pass
  then captures for both, the second of which the mobile page never received; the
  class-based file captures three files, \<^verbatim>\<open>index.ts\<close> four.
\<close>

theorem index_selectors_leak_into_next_pass:
  "fst (devicePass_index (demoSystem listPage) (demoOptions [] (Some ''#list'') Both False)
          Desktop [] blankState)
     = Inr [syntheticLocator ''screenshot-target-0'', syntheticLocator ''screenshot-target-1'']
   \<and> saved (captureScreenshots (demoSystem listPage)
              (demoOptions [] (Some ''#list'') Both False) blankState)
     = [''shots/data_screenshot_screenshot_target_0__desktop.png'',
        ''shots/data_screenshot_screenshot_target_1__desktop.png'',
        ''shots/data_screenshot_screenshot_target_0__mobile.png'',
        ''shots/data_screenshot_screenshot_target_1__mobile.png'']
   \<and> saved (start (demoSystem listPage) (demoOptions [] (Some ''#list'') Both False) blankState)
     = [''shots/data_screenshot_screenshot_target_0__desktop.png'',
        ''shots/data_screenshot_screenshot_target_1__desktop.png'',
        ''shots/data_screenshot_screenshot_target_0__mobile.png'']"
  by (simp add: run_defs listPage_def)

end
